theory Spec2Isabelle
  imports Complex_Main "HOL-Library.Sublist" "HOL-Library.AList"
begin

section \<open>JavaScript values the sources compute with\<close>

text \<open>
  Strings are \<open>string\<close> (the UTF-8 bytes of the JavaScript string). The process
  environment \<open>process.env\<close> is a map from variable names to strings, taken after the
  \<open>.env\<close> file has been merged in; a variable that is not set reads as
  \<open>undefined\<close>, here \<open>None\<close>.
\<close>

type_synonym env = "string \<rightharpoonup> string"

text \<open>\<open>ToBoolean\<close> on a value of type \<open>string | undefined\<close>: \<open>undefined\<close> and the
  empty string are falsy.\<close>

fun truthy_str :: "string option \<Rightarrow> bool" where
  "truthy_str None = False"
| "truthy_str (Some s) = (s \<noteq> [])"

text \<open>\<open>a || b\<close> on \<open>string | undefined\<close> with a string default.\<close>

definition or_str :: "string option \<Rightarrow> string \<Rightarrow> string" where
  "or_str a b = (case a of None \<Rightarrow> b | Some s \<Rightarrow> if s \<noteq> [] then s else b)"

text \<open>
  A thrown value: an \<open>Error\<close> object with its \<open>name\<close> and \<open>message\<close>.
  \<open>new Error(m)\<close> is \<open>JsError ''Error'' m\<close>. The template literal \<open>`${error}`\<close>
  calls \<open>Error.prototype.toString\<close>.
\<close>

datatype js_error = JsError (err_name: string) (message: string)

abbreviation new_Error :: "string \<Rightarrow> js_error" where
  "new_Error m \<equiv> JsError ''Error'' m"

definition error_toString :: "js_error \<Rightarrow> string" where
  "error_toString e =
     (if err_name e = [] then message e
      else if message e = [] then err_name e
      else err_name e @ '': '' @ message e)"

text \<open>
  A JavaScript number. \<open>Fin q\<close> stands for the finite double nearest to the rational
  \<open>q\<close> (both zeros are \<open>Fin 0\<close>); the rounding inside the finite range is not
  modelled, underflow to zero and overflow to infinity are.
\<close>

datatype js_number = NaN | PInf | NInf | Fin rat

fun truthy_num :: "js_number \<Rightarrow> bool" where
  "truthy_num NaN = False"
| "truthy_num (Fin q) = (q \<noteq> 0)"
| "truthy_num _ = True"

definition or_num :: "js_number \<Rightarrow> js_number \<Rightarrow> js_number" where
  "or_num a b = (if truthy_num a then a else b)"

subsection \<open>\<open>Number(string | undefined)\<close>\<close>

text \<open>
  \<open>Number(undefined)\<close> is \<open>NaN\<close>; on a string it is ECMAScript's
  \<open>StringToNumber\<close>: white space and line terminators are trimmed on both sides,
  the empty rest is \<open>0\<close>, a \<open>StrNumericLiteral\<close> has its value, anything else is
  \<open>NaN\<close>.
\<close>

fun pos :: "'a \<Rightarrow> 'a list \<Rightarrow> nat option" where
  "pos c [] = None"
| "pos c (x # xs) = (if c = x then Some 0 else map_option Suc (pos c xs))"

definition digit_in :: "nat \<Rightarrow> char \<Rightarrow> nat option" where
  "digit_in base c =
     (case (case pos c ''0123456789abcdef'' of
              Some v \<Rightarrow> Some v
            | None \<Rightarrow> map_option (\<lambda>v. v + 10) (pos c ''ABCDEF'')) of
        None \<Rightarrow> None
      | Some v \<Rightarrow> if v < base then Some v else None)"

text \<open>The value of a non-empty run of digits in a base; \<open>None\<close> when the run is empty
  or holds another character.\<close>

fun digits_acc :: "nat \<Rightarrow> nat \<Rightarrow> string \<Rightarrow> nat option" where
  "digits_acc base acc [] = Some acc"
| "digits_acc base acc (c # cs) =
     (case digit_in base c of
        None \<Rightarrow> None
      | Some v \<Rightarrow> digits_acc base (acc * base + v) cs)"

definition digits_val :: "nat \<Rightarrow> string \<Rightarrow> nat option" where
  "digits_val base s = (if s = [] then None else digits_acc base 0 s)"

definition is_digit :: "char \<Rightarrow> bool" where
  "is_digit c = (digit_in 10 c \<noteq> None)"

text \<open>\<open>StrWhiteSpaceChar\<close> in UTF-8: TAB, LF, VT, FF, CR, SP, U+00A0, U+1680,
  U+2000 to U+200A, U+2028, U+2029, U+202F, U+205F, U+3000, U+FEFF.\<close>

definition ws_tokens :: "string list" where
  "ws_tokens =
     [[CHR 0x09], [CHR 0x0A], [CHR 0x0B], [CHR 0x0C], [CHR 0x0D], [CHR 0x20],
      [CHR 0xC2, CHR 0xA0], [CHR 0xE1, CHR 0x9A, CHR 0x80],
      [CHR 0xE2, CHR 0x80, CHR 0x80], [CHR 0xE2, CHR 0x80, CHR 0x81],
      [CHR 0xE2, CHR 0x80, CHR 0x82], [CHR 0xE2, CHR 0x80, CHR 0x83],
      [CHR 0xE2, CHR 0x80, CHR 0x84], [CHR 0xE2, CHR 0x80, CHR 0x85],
      [CHR 0xE2, CHR 0x80, CHR 0x86], [CHR 0xE2, CHR 0x80, CHR 0x87],
      [CHR 0xE2, CHR 0x80, CHR 0x88], [CHR 0xE2, CHR 0x80, CHR 0x89],
      [CHR 0xE2, CHR 0x80, CHR 0x8A], [CHR 0xE2, CHR 0x80, CHR 0xA8],
      [CHR 0xE2, CHR 0x80, CHR 0xA9], [CHR 0xE2, CHR 0x80, CHR 0xAF],
      [CHR 0xE2, CHR 0x81, CHR 0x9F], [CHR 0xE3, CHR 0x80, CHR 0x80],
      [CHR 0xEF, CHR 0xBB, CHR 0xBF]]"

definition starts_with :: "string \<Rightarrow> string \<Rightarrow> bool" where
  "starts_with s p = (take (length p) s = p)"

text \<open>The length of the white-space token, out of the given ones, that the string
  starts with (0 when there is none).\<close>

fun ws_len :: "string list \<Rightarrow> string \<Rightarrow> nat" where
  "ws_len [] s = 0"
| "ws_len (t # ts) s = (if starts_with s t then length t else ws_len ts s)"

fun trim_start_fuel :: "nat \<Rightarrow> string list \<Rightarrow> string \<Rightarrow> string" where
  "trim_start_fuel 0 ts s = s"
| "trim_start_fuel (Suc n) ts s =
     (if ws_len ts s = 0 then s else trim_start_fuel n ts (drop (ws_len ts s) s))"

text \<open>Every token removed is at least one character, so \<open>length s\<close> rounds always
  reach the first character that is not white space.\<close>

definition trim_start :: "string list \<Rightarrow> string \<Rightarrow> string" where
  "trim_start ts s = trim_start_fuel (length s) ts s"

definition trim :: "string \<Rightarrow> string" where
  "trim s = rev (trim_start (map rev ws_tokens) (rev (trim_start ws_tokens s)))"

text \<open>\<open>ExponentPart\<close> after its \<open>e\<close> or \<open>E\<close>: an optional sign and digits.\<close>

definition signed_integer :: "string \<Rightarrow> int option" where
  "signed_integer s =
     (case s of
        [] \<Rightarrow> None
      | c # cs \<Rightarrow>
          if c = CHR ''+'' then map_option int (digits_val 10 cs)
          else if c = CHR ''-'' then map_option (\<lambda>n. - int n) (digits_val 10 cs)
          else map_option int (digits_val 10 s))"

text \<open>The mantissa \<open>DecimalDigits . DecimalDigits\<^sub>o\<^sub>p\<^sub>t\<close>, \<open>. DecimalDigits\<close> or
  \<open>DecimalDigits\<close>, as a rational.\<close>

definition mantissa :: "string \<Rightarrow> rat option" where
  "mantissa s =
     (let ip = takeWhile is_digit s; r = dropWhile is_digit s in
      case r of
        [] \<Rightarrow> map_option of_nat (digits_val 10 ip)
      | c # fp \<Rightarrow>
          if c \<noteq> CHR ''.'' then None
          else if fp = [] then map_option of_nat (digits_val 10 ip)
          else (case digits_val 10 fp of
                  None \<Rightarrow> None
                | Some f \<Rightarrow>
                    if ip = [] then Some (of_nat f / 10 ^ length fp)
                    else map_option (\<lambda>i. of_nat i + of_nat f / 10 ^ length fp)
                           (digits_val 10 ip)))"

definition is_exp_char :: "char \<Rightarrow> bool" where
  "is_exp_char c = (c = CHR ''e'' \<or> c = CHR ''E'')"

definition unsigned_decimal :: "string \<Rightarrow> rat option" where
  "unsigned_decimal s =
     (let m = takeWhile (\<lambda>c. \<not> is_exp_char c) s;
          r = dropWhile (\<lambda>c. \<not> is_exp_char c) s in
      case mantissa m of
        None \<Rightarrow> None
      | Some q \<Rightarrow>
          (case r of
             [] \<Rightarrow> Some q
           | _ # ex \<Rightarrow>
               (case signed_integer ex of
                  None \<Rightarrow> None
                | Some e \<Rightarrow> Some (if 0 \<le> e then q * 10 ^ nat e else q / 10 ^ nat (- e)))))"

text \<open>Rounding at the two ends of the double range: at most \<open>2\<^sup>-\<^sup>1\<^sup>0\<^sup>7\<^sup>5\<close> in size is
  zero, \<open>2\<^sup>1\<^sup>0\<^sup>2\<^sup>4 - 2\<^sup>9\<^sup>7\<^sup>0\<close> and more is infinite.\<close>

definition round_ends :: "rat \<Rightarrow> js_number" where
  "round_ends q =
     (if \<bar>q\<bar> * 2 ^ 1075 \<le> 1 then Fin 0
      else if 2 ^ 1024 - 2 ^ 970 \<le> q then PInf
      else if q \<le> - (2 ^ 1024 - 2 ^ 970) then NInf
      else Fin q)"

definition str_decimal_literal :: "string \<Rightarrow> js_number" where
  "str_decimal_literal s =
     (let neg = starts_with s ''-'' \<and> s \<noteq> [];
          u = (if s \<noteq> [] \<and> (hd s = CHR ''+'' \<or> hd s = CHR ''-'') then tl s else s) in
      if u = ''Infinity'' then (if neg then NInf else PInf)
      else (case unsigned_decimal u of
              None \<Rightarrow> NaN
            | Some q \<Rightarrow> round_ends (if neg then - q else q)))"

definition non_decimal_literal :: "string \<Rightarrow> js_number option" where
  "non_decimal_literal s =
     (case s of
        z # x # ds \<Rightarrow>
          if z \<noteq> CHR ''0'' then None
          else
            (let base = (if x = CHR ''x'' \<or> x = CHR ''X'' then 16
                         else if x = CHR ''o'' \<or> x = CHR ''O'' then 8
                         else if x = CHR ''b'' \<or> x = CHR ''B'' then 2 else (0::nat)) in
             if base = 0 then None
             else Some (case digits_val base ds of
                          None \<Rightarrow> NaN
                        | Some n \<Rightarrow> round_ends (of_nat n)))
      | _ \<Rightarrow> None)"

definition StringToNumber :: "string \<Rightarrow> js_number" where
  "StringToNumber s =
     (let t = trim s in
      if t = [] then Fin 0
      else (case non_decimal_literal t of
              Some v \<Rightarrow> v
            | None \<Rightarrow> str_decimal_literal t))"

fun Number_js :: "string option \<Rightarrow> js_number" where
  "Number_js None = NaN"
| "Number_js (Some s) = StringToNumber s"

section \<open>config.ts\<close>

record ServerConfig =
  figmaApiKey :: string
  port :: js_number

text \<open>\<open>getServerConfig(isStdioMode)\<close>, reading \<open>process.env\<close>; \<open>Inl\<close> is the throw.
  The key is read behind the guard, where it is set.\<close>

definition getServerConfig :: "bool \<Rightarrow> env \<Rightarrow> js_error + ServerConfig" where
  "getServerConfig isStdioMode env =
     (if \<not> truthy_str (env ''FIGMA_API_KEY'')
      then Inl (new_Error ''FIGMA_API_KEY is not set'')
      else
        let port = (if isStdioMode then Fin 0
                    else or_num (Number_js (env ''PORT'')) (Fin 3000))
        in Inr \<lparr>figmaApiKey = the (env ''FIGMA_API_KEY''), port = port\<rparr>)"

section \<open>index.ts\<close>

record connect_metadata =
  hostname :: string
  environment :: string

record connect_options =
  trustDomain :: string
  metadata :: connect_metadata

text \<open>
  What the process has done: the \<open>console.error\<close> lines, the calls of
  \<open>client.secureConnect\<close> (each one opens the channel), an exception nothing caught,
  and the exit status once the process has ended.
\<close>

record process =
  console_error :: "(string \<times> js_error) list"
  connects :: "(string \<times> connect_options) list"
  uncaught :: "js_error option"
  exit_code :: "nat option"

definition process_start :: process where
  "process_start = \<lparr>console_error = [], connects = [], uncaught = None, exit_code = None\<rparr>"

text \<open>The secure-transport client is an external package: \<open>secureConnect\<close> is a
  parameter, \<open>Inl\<close> when the awaited call rejects.\<close>

type_synonym secure_connect = "string \<Rightarrow> connect_options \<Rightarrow> js_error + unit"

definition serverMode :: "env \<Rightarrow> string" where
  "serverMode env = or_str (env ''SERVER_MODE'') ''stdio''"

text \<open>The \<open>try\<close> block of \<open>startServer\<close>.\<close>

definition startServer_try ::
  "secure_connect \<Rightarrow> string \<Rightarrow> env \<Rightarrow> process \<Rightarrow> (js_error + unit) \<times> process" where
  "startServer_try secureConnect mcpName env p =
     (if serverMode env = ''stdio'' then
        (let opts = \<lparr>trustDomain = ''gptapps.ai'',
                     metadata = \<lparr>hostname = or_str (env ''HOSTNAME'') ''unknown'',
                                 environment = or_str (env ''NODE_ENV'') ''development''\<rparr>\<rparr>
         in (secureConnect mcpName opts, p\<lparr>connects := connects p @ [(mcpName, opts)]\<rparr>))
      else if serverMode env = ''http'' then
        (Inl (new_Error ''HTTP server mode not yet implemented''), p)
      else (Inl (new_Error (''Unsupported server mode: '' @ serverMode env)), p))"

text \<open>\<open>console.error("Failed to start server:", error); process.exit(1)\<close>.\<close>

definition fail_start :: "js_error \<Rightarrow> process \<Rightarrow> process" where
  "fail_start error p =
     p\<lparr>console_error := console_error p @ [(''Failed to start server:'', error)],
       exit_code := Some 1\<rparr>"

definition startServer ::
  "secure_connect \<Rightarrow> string \<Rightarrow> env \<Rightarrow> process \<Rightarrow> (js_error + unit) \<times> process" where
  "startServer secureConnect mcpName env p =
     (case startServer_try secureConnect mcpName env p of
        (Inl error, p') \<Rightarrow> (Inr (), fail_start error p')
      | (Inr u, p') \<Rightarrow> (Inr u, p'))"

text \<open>An exception that reaches the top level of the module ends the Node process
  with status 1.\<close>

definition die_uncaught :: "js_error \<Rightarrow> process \<Rightarrow> process" where
  "die_uncaught e p = p\<lparr>uncaught := Some e, exit_code := Some 1\<rparr>"

text \<open>
  The module body: the two environment checks, \<open>aztp.default.initialize\<close> (external,
  a parameter that answers with the client's \<open>secureConnect\<close> or throws), then
  \<open>startServer().catch(...)\<close>.
\<close>

definition index_ts :: "(string \<Rightarrow> string \<Rightarrow> js_error + secure_connect) \<Rightarrow> env \<Rightarrow> process" where
  "index_ts initialize env =
     (if \<not> truthy_str (env ''AZTP_API_KEY'')
      then die_uncaught (new_Error ''AZTP_API_KEY environment variable is not set'') process_start
      else if \<not> truthy_str (env ''MCP_NAME'')
      then die_uncaught (new_Error ''MCP_NAME environment variable is not set'') process_start
      else
        (let apiKey = the (env ''AZTP_API_KEY''); mcpName = the (env ''MCP_NAME'') in
         case initialize apiKey mcpName of
           Inl e \<Rightarrow> die_uncaught e process_start
         | Inr secureConnect \<Rightarrow>
             (case startServer secureConnect mcpName env process_start of
                (Inl error, p) \<Rightarrow> fail_start error p
              | (Inr u, p) \<Rightarrow> p)))"

section \<open>server.ts: the tool handlers\<close>

subsection \<open>The result envelope\<close>

text \<open>A content block \<open>{ type, text }\<close>.\<close>

record content_block =
  block_type :: string
  block_text :: string

text \<open>\<open>isError\<close> is \<open>None\<close> where the returned object has no such key.\<close>

record envelope =
  isError :: "bool option"
  content :: "content_block list"

text \<open>\<open>try { body } catch (error) { handler }\<close>.\<close>

definition try_catch :: "js_error + 'a \<Rightarrow> (js_error \<Rightarrow> js_error + 'a) \<Rightarrow> js_error + 'a" where
  "try_catch body handler = (case body of Inl error \<Rightarrow> handler error | Inr v \<Rightarrow> Inr v)"

fun join :: "string \<Rightarrow> string list \<Rightarrow> string" where
  "join sep [] = []"
| "join sep [x] = x"
| "join sep (x # y # ys) = x @ sep @ join sep (y # ys)"

text \<open>\<open>String(n)\<close> for an array length.\<close>

fun nat_toString :: "nat \<Rightarrow> string" where
  "nat_toString n =
     (if n < 10 then [''0123456789'' ! n]
      else nat_toString (n div 10) @ [''0123456789'' ! (n mod 10)])"

declare nat_toString.simps [simp del]

subsection \<open>\<open>download_figma_images\<close>\<close>

record node_base =
  nodeId :: string
  fileName :: string

record image_node = node_base +
  imageRef :: "string option"

datatype file_type = Svg | Png

record render_request = node_base +
  fileType :: file_type

text \<open>
  One entry of the arrays the two download methods resolve to: a saved path, a
  boolean flag, \<open>null\<close> or \<open>undefined\<close>.
\<close>

datatype download = Undefined | Null | Flag bool | Path string

fun truthy :: "download \<Rightarrow> bool" where
  "truthy Undefined = False"
| "truthy Null = False"
| "truthy (Flag b) = b"
| "truthy (Path s) = (s \<noteq> [])"

text \<open>The string \<open>Array.prototype.join\<close> puts for an element.\<close>

fun join_text :: "download \<Rightarrow> string" where
  "join_text Undefined = []"
| "join_text Null = []"
| "join_text (Flag b) = (if b then ''true'' else ''false'')"
| "join_text (Path s) = s"

text \<open>\<open>Array.prototype.find\<close>: the first element the predicate holds for, or
  \<open>undefined\<close>.\<close>

definition js_find :: "(download \<Rightarrow> bool) \<Rightarrow> download list \<Rightarrow> download" where
  "js_find P xs = (case List.find P xs of None \<Rightarrow> Undefined | Some x \<Rightarrow> x)"

definition endsWith :: "string \<Rightarrow> string \<Rightarrow> bool" where
  "endsWith s suf = (length suf \<le> length s \<and> drop (length s - length suf) s = suf)"

text \<open>
  \<open>Promise.all\<close> of two promises: both values, or the rejection that came first.
  Which of two rejections comes first is not decided by the code; it is the flag.
\<close>

definition promise_all2 ::
  "bool \<Rightarrow> js_error + 'a \<Rightarrow> js_error + 'b \<Rightarrow> js_error + ('a \<times> 'b)" where
  "promise_all2 firstRejectsFirst p q =
     (case p of
        Inl e1 \<Rightarrow> (case q of Inl e2 \<Rightarrow> Inl (if firstRejectsFirst then e1 else e2)
                           | Inr _ \<Rightarrow> Inl e1)
      | Inr a \<Rightarrow> (case q of Inl e2 \<Rightarrow> Inl e2 | Inr b \<Rightarrow> Inr (a, b)))"

text \<open>The two methods of \<open>FigmaService\<close> the handler calls are parameters.\<close>

type_synonym getImageFills_t = "string \<Rightarrow> image_node list \<Rightarrow> string \<Rightarrow> js_error + download list"
type_synonym getImages_t = "string \<Rightarrow> render_request list \<Rightarrow> string \<Rightarrow> js_error + download list"

definition imageFills :: "image_node list \<Rightarrow> image_node list" where
  "imageFills nodes = filter (\<lambda>n. truthy_str (imageRef n)) nodes"

definition renderRequest :: "image_node \<Rightarrow> render_request" where
  "renderRequest n =
     \<lparr>nodeId = nodeId n, fileName = fileName n,
      fileType = (if endsWith (fileName n) ''.svg'' then Svg else Png)\<rparr>"

definition renderRequests :: "image_node list \<Rightarrow> render_request list" where
  "renderRequests nodes = map renderRequest (filter (\<lambda>n. \<not> truthy_str (imageRef n)) nodes)"

text \<open>\<open>await Promise.all([fillDownloads, renderDownloads]).then(([f, r]) => [...f, ...r])\<close>.\<close>

definition downloads ::
  "bool \<Rightarrow> getImageFills_t \<Rightarrow> getImages_t \<Rightarrow> string \<Rightarrow> image_node list \<Rightarrow> string
     \<Rightarrow> js_error + download list" where
  "downloads firstRejectsFirst getImageFills getImages fileKey nodes localPath =
     (let fillDownloads = getImageFills fileKey (imageFills nodes) localPath;
          renderDownloads = getImages fileKey (renderRequests nodes) localPath
      in case promise_all2 firstRejectsFirst fillDownloads renderDownloads of
           Inl e \<Rightarrow> Inl e
         | Inr (f, r) \<Rightarrow> Inr (f @ r))"

definition saveSuccess :: "download list \<Rightarrow> bool" where
  "saveSuccess ds = (\<not> truthy (js_find (\<lambda>success. \<not> truthy success) ds))"

definition download_text :: "download list \<Rightarrow> string" where
  "download_text ds =
     (if saveSuccess ds
      then ''Success, '' @ nat_toString (length ds) @ '' images downloaded: ''
             @ join '', '' (map join_text ds)
      else ''Failed'')"

text \<open>The \<open>try\<close> block of the handler.\<close>

definition download_figma_images_try ::
  "bool \<Rightarrow> getImageFills_t \<Rightarrow> getImages_t \<Rightarrow> string \<Rightarrow> image_node list \<Rightarrow> string
     \<Rightarrow> js_error + envelope" where
  "download_figma_images_try firstRejectsFirst getImageFills getImages fileKey nodes localPath =
     (case downloads firstRejectsFirst getImageFills getImages fileKey nodes localPath of
        Inl e \<Rightarrow> Inl e
      | Inr ds \<Rightarrow>
          Inr \<lparr>isError = None,
               content = [\<lparr>block_type = ''text'', block_text = download_text ds\<rparr>]\<rparr>)"

text \<open>What both \<open>catch\<close> blocks return: \<open>isError: true\<close> and one text block, the
  prefix followed by \<open>`${error}`\<close>.\<close>

definition error_envelope :: "string \<Rightarrow> js_error \<Rightarrow> envelope" where
  "error_envelope label error =
     \<lparr>isError = Some True,
      content = [\<lparr>block_type = ''text'', block_text = label @ error_toString error\<rparr>]\<rparr>"

definition download_figma_images ::
  "bool \<Rightarrow> getImageFills_t \<Rightarrow> getImages_t \<Rightarrow> string \<Rightarrow> image_node list \<Rightarrow> string
     \<Rightarrow> js_error + envelope" where
  "download_figma_images firstRejectsFirst getImageFills getImages fileKey nodes localPath =
     try_catch
       (download_figma_images_try firstRejectsFirst getImageFills getImages fileKey nodes localPath)
       (\<lambda>error. Inr (error_envelope ''Error downloading images: '' error))"

text \<open>Modelled from the spec: the two download methods of \<open>FigmaService\<close>
  (services/figma is not among the sources). Section 4.2 gives them the result
  \<open>sequence<path|null>\<close> over the requests, where a failed download does not abort
  its siblings: a call that does not fail answers with one entry for each request.\<close>

definition one_per_request :: "js_error + download list \<Rightarrow> 'r list \<Rightarrow> bool" where
  "one_per_request res reqs = (case res of Inl _ \<Rightarrow> True | Inr ds \<Rightarrow> length ds = length reqs)"

subsection \<open>JSON values and \<open>JSON.stringify\<close>\<close>

text \<open>
  The values the design data is made of. A number is kept as the text
  \<open>Number.prototype.toString\<close> gives it (\<open>JSON.stringify\<close> writes that text; a
  number that is not finite is written \<open>null\<close> and is \<open>JNull\<close> here). An object
  is the list of its own properties, in property order.
\<close>

datatype json =
    JNull
  | JBool bool
  | JNum string
  | JStr string
  | JArr "json list"
  | JObj "(string \<times> json) list"

definition hex_char :: "nat \<Rightarrow> char" where
  "hex_char n = ''0123456789abcdef'' ! n"

text \<open>\<open>QuoteJSONString\<close>: the two-character escapes, \<open>\u00XX\<close> for the other
  control characters, every other character as it is.\<close>

definition quote_char :: "char \<Rightarrow> string" where
  "quote_char c =
     (if c = CHR 0x08 then [CHR 0x5C, CHR ''b'']
      else if c = CHR 0x09 then [CHR 0x5C, CHR ''t'']
      else if c = CHR 0x0A then [CHR 0x5C, CHR ''n'']
      else if c = CHR 0x0C then [CHR 0x5C, CHR ''f'']
      else if c = CHR 0x0D then [CHR 0x5C, CHR ''r'']
      else if c = CHR 0x22 then [CHR 0x5C, CHR 0x22]
      else if c = CHR 0x5C then [CHR 0x5C, CHR 0x5C]
      else if (of_char c :: nat) < 0x20
      then [CHR 0x5C, CHR ''u'', CHR ''0'', CHR ''0'',
            hex_char ((of_char c :: nat) div 16), hex_char ((of_char c :: nat) mod 16)]
      else [c])"

definition QuoteJSONString :: "string \<Rightarrow> string" where
  "QuoteJSONString s = [CHR 0x22] @ concat (map quote_char s) @ [CHR 0x22]"

text \<open>
  The tail of \<open>SerializeJSONObject\<close> and \<open>SerializeJSONArray\<close>: the parts already
  serialized at the deeper indent, wrapped in the brackets. \<open>stepback\<close> is the indent
  of the enclosing level.
\<close>

definition wrap_parts :: "string \<Rightarrow> string \<Rightarrow> char \<Rightarrow> char \<Rightarrow> string list \<Rightarrow> string" where
  "wrap_parts gap stepback lb rb partial =
     (if partial = [] then [lb, rb]
      else if gap = [] then [lb] @ join '','' partial @ [rb]
      else
        (let indent = stepback @ gap in
         [lb] @ [CHR 0x0A] @ indent @ join ('','' @ [CHR 0x0A] @ indent) partial
           @ [CHR 0x0A] @ stepback @ [rb]))"

text \<open>\<open>SerializeJSONProperty\<close> with the gap and the current indent.\<close>

fun SerializeJSONProperty :: "string \<Rightarrow> string \<Rightarrow> json \<Rightarrow> string"
  and SerializeJSONArray :: "string \<Rightarrow> string \<Rightarrow> json list \<Rightarrow> string list"
  and SerializeJSONObject :: "string \<Rightarrow> string \<Rightarrow> (string \<times> json) list \<Rightarrow> string list"
where
  "SerializeJSONProperty gap indent JNull = ''null''"
| "SerializeJSONProperty gap indent (JBool b) = (if b then ''true'' else ''false'')"
| "SerializeJSONProperty gap indent (JNum n) = n"
| "SerializeJSONProperty gap indent (JStr s) = QuoteJSONString s"
| "SerializeJSONProperty gap indent (JArr xs) =
     wrap_parts gap indent (CHR ''['') (CHR '']'') (SerializeJSONArray gap (indent @ gap) xs)"
| "SerializeJSONProperty gap indent (JObj ms) =
     wrap_parts gap indent (CHR ''{'') (CHR ''}'') (SerializeJSONObject gap (indent @ gap) ms)"
| "SerializeJSONArray gap indent [] = []"
| "SerializeJSONArray gap indent (x # xs) =
     SerializeJSONProperty gap indent x # SerializeJSONArray gap indent xs"
| "SerializeJSONObject gap indent [] = []"
| "SerializeJSONObject gap indent ((k, v) # ms) =
     (QuoteJSONString k @ '':'' @ (if gap \<noteq> [] then '' '' else []) @ SerializeJSONProperty gap indent v)
       # SerializeJSONObject gap indent ms"

text \<open>\<open>JSON.stringify(value, null, space)\<close> for a numeric \<open>space\<close>: the gap is that
  many spaces, ten at most.\<close>

definition JSON_stringify :: "nat \<Rightarrow> json \<Rightarrow> string" where
  "JSON_stringify space v = SerializeJSONProperty (replicate (min space 10) (CHR '' '')) [] v"

subsection \<open>\<open>JSON.parse\<close>\<close>

text \<open>
  \<open>JSON.parse\<close> in two passes: the text is cut into tokens, then a stack machine
  builds the value. \<open>None\<close> is the \<open>SyntaxError\<close>. A number token keeps its text,
  as \<open>JNum\<close> does, so two spellings of one number are told apart here where
  JavaScript reads one double from both. The members of an object are kept in the
  order of the text; JavaScript lists keys that are array indices first.
\<close>

datatype token =
    TLBrace | TRBrace | TLBrack | TRBrack | TColon | TComma
  | TString string | TNumber string | TTrue | TFalse | TNull

definition is_json_ws :: "char \<Rightarrow> bool" where
  "is_json_ws c = (c = CHR 0x09 \<or> c = CHR 0x0A \<or> c = CHR 0x0D \<or> c = CHR 0x20)"

text \<open>The characters a JSON number is written with.\<close>

definition is_num_char :: "char \<Rightarrow> bool" where
  "is_num_char c = (is_digit c \<or> c = CHR ''-'' \<or> c = CHR ''+'' \<or> c = CHR ''.'' \<or> is_exp_char c)"

definition exp_ok :: "string \<Rightarrow> bool" where
  "exp_ok r =
     (case r of
        [] \<Rightarrow> True
      | c # e \<Rightarrow>
          is_exp_char c \<and>
          (let ds = (if e \<noteq> [] \<and> (hd e = CHR ''+'' \<or> hd e = CHR ''-'') then tl e else e)
           in ds \<noteq> [] \<and> list_all is_digit ds))"

text \<open>The JSON number grammar: \<open>-\<^sub>o\<^sub>p\<^sub>t int frac\<^sub>o\<^sub>p\<^sub>t exp\<^sub>o\<^sub>p\<^sub>t\<close>, where \<open>int\<close> has no
  leading zero.\<close>

definition is_json_number :: "string \<Rightarrow> bool" where
  "is_json_number s =
     (let u = (if s \<noteq> [] \<and> hd s = CHR ''-'' then tl s else s);
          ip = takeWhile is_digit u;
          r = dropWhile is_digit u
      in ip \<noteq> [] \<and> (hd ip = CHR ''0'' \<longrightarrow> ip = ''0'') \<and>
         (case r of
            [] \<Rightarrow> True
          | c # fr \<Rightarrow>
              if c = CHR ''.''
              then takeWhile is_digit fr \<noteq> [] \<and> exp_ok (dropWhile is_digit fr)
              else exp_ok r))"

text \<open>UTF-8 of a code point.\<close>

definition utf8 :: "nat \<Rightarrow> string" where
  "utf8 cp =
     (if cp < 0x80 then [char_of cp]
      else if cp < 0x800 then [char_of (0xC0 + cp div 64), char_of (0x80 + cp mod 64)]
      else if cp < 0x10000
      then [char_of (0xE0 + cp div 4096), char_of (0x80 + cp div 64 mod 64),
            char_of (0x80 + cp mod 64)]
      else [char_of (0xF0 + cp div 262144), char_of (0x80 + cp div 4096 mod 64),
            char_of (0x80 + cp div 64 mod 64), char_of (0x80 + cp mod 64)])"

definition hex4 :: "string \<Rightarrow> nat option" where
  "hex4 h = (if length h = 4 then digits_val 16 h else None)"

definition unescape :: "char \<Rightarrow> char option" where
  "unescape e =
     (if e = CHR 0x22 then Some (CHR 0x22)
      else if e = CHR 0x5C then Some (CHR 0x5C)
      else if e = CHR ''/'' then Some (CHR ''/'')
      else if e = CHR ''b'' then Some (CHR 0x08)
      else if e = CHR ''f'' then Some (CHR 0x0C)
      else if e = CHR ''n'' then Some (CHR 0x0A)
      else if e = CHR ''r'' then Some (CHR 0x0D)
      else if e = CHR ''t'' then Some (CHR 0x09)
      else None)"

text \<open>The low half of a surrogate pair written as \<open>\uXXXX\<close> at the head of the text.\<close>

definition low_surrogate :: "string \<Rightarrow> nat option" where
  "low_surrogate r =
     (if take 2 r = [CHR 0x5C, CHR ''u'']
      then (case hex4 (take 4 (drop 2 r)) of
              None \<Rightarrow> None
            | Some lo \<Rightarrow> if 0xDC00 \<le> lo \<and> lo < 0xE000 then Some lo else None)
      else None)"

text \<open>
  A string after its opening quote: the characters it stands for, and how many
  characters of the text it takes, the closing quote included. A control character
  must be escaped.
\<close>

function scan_string :: "string \<Rightarrow> (string \<times> nat) option" where
  "scan_string [] = None"
| "scan_string (c # cs) =
     (if c = CHR 0x22 then Some ([], 1)
      else if c = CHR 0x5C then
        (case cs of
           [] \<Rightarrow> None
         | e # r \<Rightarrow>
             if e = CHR ''u'' then
               (case hex4 (take 4 r) of
                  None \<Rightarrow> None
                | Some hi \<Rightarrow>
                    (case (if 0xD800 \<le> hi \<and> hi < 0xDC00 then low_surrogate (drop 4 r) else None) of
                       Some lo \<Rightarrow>
                         (case scan_string (drop 10 r) of
                            None \<Rightarrow> None
                          | Some (s, n) \<Rightarrow>
                              Some (utf8 (0x10000 + (hi - 0xD800) * 0x400 + (lo - 0xDC00)) @ s,
                                    n + 12))
                     | None \<Rightarrow>
                         (case scan_string (drop 4 r) of
                            None \<Rightarrow> None
                          | Some (s, n) \<Rightarrow> Some (utf8 hi @ s, n + 6))))
             else
               (case unescape e of
                  None \<Rightarrow> None
                | Some d \<Rightarrow>
                    (case scan_string r of
                       None \<Rightarrow> None
                     | Some (s, n) \<Rightarrow> Some (d # s, n + 2))))
      else if (of_char c :: nat) < 0x20 then None
      else (case scan_string cs of
              None \<Rightarrow> None
            | Some (s, n) \<Rightarrow> Some (c # s, n + 1)))"
  by pat_completeness auto
termination
  by (relation "measure length") auto

definition cons_token :: "token \<Rightarrow> token list option \<Rightarrow> token list option" where
  "cons_token t r = map_option (\<lambda>ts. t # ts) r"

function lex :: "string \<Rightarrow> token list option" where
  "lex [] = Some []"
| "lex (c # cs) =
     (if is_json_ws c then lex cs
      else if c = CHR ''{'' then cons_token TLBrace (lex cs)
      else if c = CHR ''}'' then cons_token TRBrace (lex cs)
      else if c = CHR ''['' then cons_token TLBrack (lex cs)
      else if c = CHR '']'' then cons_token TRBrack (lex cs)
      else if c = CHR '':'' then cons_token TColon (lex cs)
      else if c = CHR '','' then cons_token TComma (lex cs)
      else if c = CHR 0x22 then
        (case scan_string cs of
           None \<Rightarrow> None
         | Some (s, n) \<Rightarrow> cons_token (TString s) (lex (drop n cs)))
      else if is_num_char c then
        (if is_json_number (c # takeWhile is_num_char cs)
         then cons_token (TNumber (c # takeWhile is_num_char cs)) (lex (dropWhile is_num_char cs))
         else None)
      else if take 4 (c # cs) = ''true'' then cons_token TTrue (lex (drop 3 cs))
      else if take 5 (c # cs) = ''false'' then cons_token TFalse (lex (drop 4 cs))
      else if take 4 (c # cs) = ''null'' then cons_token TNull (lex (drop 3 cs))
      else None)"
  by pat_completeness auto
termination
  by (relation "measure length") (auto simp: le_imp_less_Suc length_dropWhile_le)

text \<open>
  The stack of the containers that are open, innermost first, each with what it has
  read so far and what may come next.
\<close>

datatype frame =
    FArrStart
  | FArrValue "json list"
  | FArrComma "json list"
  | FObjStart
  | FObjKey "(string \<times> json) list" string
  | FObjColon "(string \<times> json) list" string
  | FObjValue "(string \<times> json) list"
  | FObjComma "(string \<times> json) list"

datatype pstate = Parsing "frame list" | Done json

text \<open>A finished value goes where one is awaited: the top level, an array, or the
  member after a colon. A key that is already there keeps its place and takes the new
  value.\<close>

fun push_value :: "json \<Rightarrow> frame list \<Rightarrow> pstate option" where
  "push_value v [] = Some (Done v)"
| "push_value v (FArrStart # st) = Some (Parsing (FArrValue [v] # st))"
| "push_value v (FArrComma xs # st) = Some (Parsing (FArrValue (xs @ [v]) # st))"
| "push_value v (FObjColon ms k # st) = Some (Parsing (FObjValue (AList.update k v ms) # st))"
| "push_value v (_ # st) = None"

fun open_container :: "frame \<Rightarrow> frame list \<Rightarrow> pstate option" where
  "open_container f [] = Some (Parsing [f])"
| "open_container f (FArrStart # st) = Some (Parsing (f # FArrStart # st))"
| "open_container f (FArrComma xs # st) = Some (Parsing (f # FArrComma xs # st))"
| "open_container f (FObjColon ms k # st) = Some (Parsing (f # FObjColon ms k # st))"
| "open_container f (_ # st) = None"

fun parse_step :: "pstate \<Rightarrow> token \<Rightarrow> pstate option" where
  "parse_step (Done v) t = None"
| "parse_step (Parsing st) TLBrack = open_container FArrStart st"
| "parse_step (Parsing st) TLBrace = open_container FObjStart st"
| "parse_step (Parsing st) TRBrack =
     (case st of
        FArrStart # r \<Rightarrow> push_value (JArr []) r
      | FArrValue xs # r \<Rightarrow> push_value (JArr xs) r
      | _ \<Rightarrow> None)"
| "parse_step (Parsing st) TRBrace =
     (case st of
        FObjStart # r \<Rightarrow> push_value (JObj []) r
      | FObjValue ms # r \<Rightarrow> push_value (JObj ms) r
      | _ \<Rightarrow> None)"
| "parse_step (Parsing st) TComma =
     (case st of
        FArrValue xs # r \<Rightarrow> Some (Parsing (FArrComma xs # r))
      | FObjValue ms # r \<Rightarrow> Some (Parsing (FObjComma ms # r))
      | _ \<Rightarrow> None)"
| "parse_step (Parsing st) TColon =
     (case st of
        FObjKey ms k # r \<Rightarrow> Some (Parsing (FObjColon ms k # r))
      | _ \<Rightarrow> None)"
| "parse_step (Parsing st) (TString s) =
     (case st of
        FObjStart # r \<Rightarrow> Some (Parsing (FObjKey [] s # r))
      | FObjComma ms # r \<Rightarrow> Some (Parsing (FObjKey ms s # r))
      | _ \<Rightarrow> push_value (JStr s) st)"
| "parse_step (Parsing st) (TNumber n) = push_value (JNum n) st"
| "parse_step (Parsing st) TTrue = push_value (JBool True) st"
| "parse_step (Parsing st) TFalse = push_value (JBool False) st"
| "parse_step (Parsing st) TNull = push_value JNull st"

fun parse_tokens :: "pstate \<Rightarrow> token list \<Rightarrow> pstate option" where
  "parse_tokens s [] = Some s"
| "parse_tokens s (t # ts) =
     (case parse_step s t of None \<Rightarrow> None | Some s' \<Rightarrow> parse_tokens s' ts)"

definition JSON_parse :: "string \<Rightarrow> json option" where
  "JSON_parse txt =
     (case lex txt of
        None \<Rightarrow> None
      | Some ts \<Rightarrow>
          (case parse_tokens (Parsing []) ts of
             Some (Done v) \<Rightarrow> Some v
           | _ \<Rightarrow> None))"

text \<open>
  The values the round trip is stated for: a number is written as a JSON number, and
  no object has a key twice (as in every JavaScript object).
\<close>

definition num_literal :: "string \<Rightarrow> bool" where
  "num_literal n = (n \<noteq> [] \<and> list_all is_num_char n \<and> is_json_number n)"

fun wf_json :: "json \<Rightarrow> bool"
  and wf_elems :: "json list \<Rightarrow> bool"
  and wf_members :: "(string \<times> json) list \<Rightarrow> bool"
where
  "wf_json JNull = True"
| "wf_json (JBool b) = True"
| "wf_json (JNum n) = num_literal n"
| "wf_json (JStr s) = True"
| "wf_json (JArr xs) = wf_elems xs"
| "wf_json (JObj ms) = (distinct (map fst ms) \<and> wf_members ms)"
| "wf_elems [] = True"
| "wf_elems (x # xs) = (wf_json x \<and> wf_elems xs)"
| "wf_members [] = True"
| "wf_members ((k, v) # ms) = (wf_json v \<and> wf_members ms)"

text \<open>The tokens of a value, whatever the white space between them.\<close>

fun tokens_of :: "json \<Rightarrow> token list"
  and elems_tokens :: "json list \<Rightarrow> token list"
  and members_tokens :: "(string \<times> json) list \<Rightarrow> token list"
where
  "tokens_of JNull = [TNull]"
| "tokens_of (JBool b) = [if b then TTrue else TFalse]"
| "tokens_of (JNum n) = [TNumber n]"
| "tokens_of (JStr s) = [TString s]"
| "tokens_of (JArr xs) = TLBrack # elems_tokens xs @ [TRBrack]"
| "tokens_of (JObj ms) = TLBrace # members_tokens ms @ [TRBrace]"
| "elems_tokens [] = []"
| "elems_tokens (x # xs) = tokens_of x @ (if xs = [] then [] else TComma # elems_tokens xs)"
| "members_tokens [] = []"
| "members_tokens ((k, v) # ms) =
     TString k # TColon # tokens_of v @ (if ms = [] then [] else TComma # members_tokens ms)"

text \<open>Two notions for the lemmas about the lexer: tokens put in front of what the
  rest of the text gives, and a rest that cannot continue a number.\<close>

definition prepend_tokens :: "token list \<Rightarrow> token list option \<Rightarrow> token list option" where
  "prepend_tokens ts r = map_option (\<lambda>us. ts @ us) r"

definition delim :: "string \<Rightarrow> bool" where
  "delim rest = (case rest of [] \<Rightarrow> True | c # _ \<Rightarrow> \<not> is_num_char c)"

text \<open>And three for the lemmas about the stack machine: the stacks on which a value
  may come next, and the frame of an array or an object that has read \<open>acc\<close> and
  awaits its next element or member.\<close>

fun expects_value :: "frame list \<Rightarrow> bool" where
  "expects_value [] = True"
| "expects_value (FArrStart # st) = True"
| "expects_value (FArrComma xs # st) = True"
| "expects_value (FObjColon ms k # st) = True"
| "expects_value (_ # st) = False"

definition arr_frame :: "json list \<Rightarrow> frame" where
  "arr_frame acc = (if acc = [] then FArrStart else FArrComma acc)"

definition obj_frame :: "(string \<times> json) list \<Rightarrow> frame" where
  "obj_frame acc = (if acc = [] then FObjStart else FObjComma acc)"

subsection \<open>\<open>get_figma_data\<close>\<close>

text \<open>
  The simplified design \<open>file\<close> is an object: its own properties in order. The two
  fetching methods of \<open>FigmaService\<close> are parameters; \<open>depth\<close> is only handed on to
  them. The \<open>Logger\<close> calls are not in this definition nor in
  \<open>download_figma_images\<close> above: both give the envelope returned when no
  \<open>Logger\<close> call throws. The handlers with their \<open>Logger\<close> calls follow below.
\<close>

type_synonym design = "(string \<times> json) list"
type_synonym 'd getNode_t = "string \<Rightarrow> string \<Rightarrow> 'd option \<Rightarrow> js_error + design"
type_synonym 'd getFile_t = "string \<Rightarrow> 'd option \<Rightarrow> js_error + design"

text \<open>\<open>const { nodes, globalVars, ...metadata } = file\<close>: the rest object has every
  other own property.\<close>

definition metadata_of :: "design \<Rightarrow> design" where
  "metadata_of file = filter (\<lambda>kv. fst kv \<noteq> ''nodes'' \<and> fst kv \<noteq> ''globalVars'') file"

text \<open>\<open>nodes.map(...)\<close> on a value that is no array is a \<open>TypeError\<close>.\<close>

definition map_TypeError :: "json option \<Rightarrow> js_error" where
  "map_TypeError v =
     JsError ''TypeError''
       (case v of
          None \<Rightarrow> ''Cannot read properties of undefined (reading 'map')''
        | Some JNull \<Rightarrow> ''Cannot read properties of null (reading 'map')''
        | Some _ \<Rightarrow> ''nodes.map is not a function'')"

definition nodesJson :: "json list \<Rightarrow> string" where
  "nodesJson nodes = ''['' @ join '','' (map (JSON_stringify 2) nodes) @ '']''"

text \<open>\<open>JSON.stringify(undefined, null, 2)\<close> is \<open>undefined\<close>, which the template
  literal writes as the word.\<close>

definition globalVarsJson :: "json option \<Rightarrow> string" where
  "globalVarsJson g = (case g of None \<Rightarrow> ''undefined'' | Some v \<Rightarrow> JSON_stringify 2 v)"

definition resultJson :: "design \<Rightarrow> json list \<Rightarrow> json option \<Rightarrow> string" where
  \<open>resultJson metadata' nodes globalVars =
     ''{ "metadata": '' @ JSON_stringify 2 (JObj metadata')
       @ '', "nodes": '' @ nodesJson nodes
       @ '', "globalVars": '' @ globalVarsJson globalVars @ '' }''\<close>

text \<open>The \<open>try\<close> block of the handler.\<close>

definition get_figma_data_try ::
  "'d getNode_t \<Rightarrow> 'd getFile_t \<Rightarrow> string \<Rightarrow> string option \<Rightarrow> 'd option
     \<Rightarrow> js_error + envelope" where
  "get_figma_data_try getNode getFile fileKey nodeId' depth =
     (case (if truthy_str nodeId' then getNode fileKey (the nodeId') depth
            else getFile fileKey depth) of
        Inl e \<Rightarrow> Inl e
      | Inr file \<Rightarrow>
          (case map_of file ''nodes'' of
             Some (JArr nodes) \<Rightarrow>
               Inr \<lparr>isError = None,
                    content = [\<lparr>block_type = ''text'',
                                block_text = resultJson (metadata_of file) nodes
                                               (map_of file ''globalVars'')\<rparr>]\<rparr>
           | other \<Rightarrow> Inl (map_TypeError other)))"

definition get_figma_data ::
  "'d getNode_t \<Rightarrow> 'd getFile_t \<Rightarrow> string \<Rightarrow> string option \<Rightarrow> 'd option
     \<Rightarrow> js_error + envelope" where
  "get_figma_data getNode getFile fileKey nodeId' depth =
     try_catch
       (get_figma_data_try getNode getFile fileKey nodeId' depth)
       (\<lambda>error. Inr (error_envelope ''Error fetching file: '' error))"

subsection \<open>The handlers with their \<open>Logger\<close> calls\<close>

text \<open>
  \<open>get_figma_data\<close> and \<open>download_figma_images\<close> above are the envelope side of
  the two handlers: what is returned when no \<open>Logger\<close> call throws. Here are the
  handlers as registered, with every \<open>Logger\<close> call and every call of the service.

  \<open>Logger.log\<close> and \<open>Logger.error\<close> are empty functions until \<open>connect\<close> has
  run (\<open>None\<close>); after it each of them calls \<open>this.server.sendLoggingMessage\<close>
  with a level and its arguments and does not await the promise it gets. That method
  belongs to the SDK and is a parameter: called, it throws, or answers with a promise
  that resolves or rejects.
\<close>

datatype log_arg = LogText string | LogError js_error

record log_message =
  level :: string
  data :: "log_arg list"

datatype send_outcome = Throws js_error | Resolves | Rejects js_error

type_synonym logger = "(log_message \<Rightarrow> send_outcome) option"

text \<open>What a handler does with the service, step by step: a call it issues (it gets
  a promise), and an \<open>await\<close>, where it waits for the promises handed to it.\<close>

datatype service_call =
    GetNode string string "string option"
  | GetFile string "string option"
  | GetImageFills string "image_node list" string
  | GetImages string "render_request list" string
  | Await

text \<open>
  What an invocation leaves behind besides its result: the messages handed to
  \<open>sendLoggingMessage\<close>, the rejections of promises nobody awaits or handles, and
  the calls of the service and the awaits in the order they happened.
\<close>

record effects =
  logged :: "log_message list"
  unhandled :: "js_error list"
  calls :: "service_call list"

definition no_effects :: effects where
  "no_effects = \<lparr>logged = [], unhandled = [], calls = []\<rparr>"


definition log_call ::
  "logger \<Rightarrow> string \<Rightarrow> log_arg list \<Rightarrow> effects \<Rightarrow> (js_error + unit) \<times> effects" where
  "log_call lg lvl args fx =
     (case lg of
        None \<Rightarrow> (Inr (), fx)
      | Some send \<Rightarrow>
          (let m = \<lparr>level = lvl, data = args\<rparr>;
               fx' = fx\<lparr>logged := logged fx @ [m]\<rparr>
           in case send m of
                Throws e \<Rightarrow> (Inl e, fx')
              | Resolves \<Rightarrow> (Inr (), fx')
              | Rejects e \<Rightarrow> (Inr (), fx'\<lparr>unhandled := unhandled fx' @ [e]\<rparr>)))"

definition issue :: "service_call \<Rightarrow> effects \<Rightarrow> effects" where
  "issue c fx = fx\<lparr>calls := calls fx @ [c]\<rparr>"

text \<open>
  \<open>download_figma_images\<close>: both calls of the service are issued, the second without
  waiting for the first, and then \<open>Promise.all\<close> of the two promises is awaited (the
  value of the \<open>try\<close> block is \<open>download_figma_images_try\<close>: it has no \<open>Logger\<close>
  call). The \<open>catch\<close> block calls \<open>Logger.error\<close> and returns the error envelope.
\<close>

definition download_figma_images_handler ::
  "logger \<Rightarrow> bool \<Rightarrow> getImageFills_t \<Rightarrow> getImages_t \<Rightarrow> string \<Rightarrow> image_node list \<Rightarrow> string
     \<Rightarrow> effects \<Rightarrow> (js_error + envelope) \<times> effects" where
  "download_figma_images_handler lg firstRejectsFirst getImageFills getImages fileKey nodes localPath fx =
     (let fx1 = issue (GetImageFills fileKey (imageFills nodes) localPath) fx;
          fx2 = issue Await (issue (GetImages fileKey (renderRequests nodes) localPath) fx1)
      in case download_figma_images_try firstRejectsFirst getImageFills getImages
                fileKey nodes localPath of
           Inr result \<Rightarrow> (Inr result, fx2)
         | Inl error \<Rightarrow>
             (case log_call lg ''error''
                     [LogText (''Error downloading images from file '' @ fileKey @ '':''),
                      LogError error] fx2 of
                (Inl thrown, fx3) \<Rightarrow> (Inl thrown, fx3)
              | (Inr u, fx3) \<Rightarrow> (Inr (error_envelope ''Error downloading images: '' error), fx3)))"

text \<open>
  A number handed to \<open>get_figma_data\<close> as \<open>depth\<close> is kept as its text, like
  \<open>JNum\<close>: it is falsy when it is zero or \<open>NaN\<close>.
\<close>

definition truthy_depth :: "string option \<Rightarrow> bool" where
  "truthy_depth depth = (case depth of None \<Rightarrow> False | Some n \<Rightarrow> n \<noteq> ''0'' \<and> n \<noteq> ''NaN'')"

definition fetching_message :: "string option \<Rightarrow> string option \<Rightarrow> string \<Rightarrow> string" where
  "fetching_message depth nodeId' fileKey =
     ''Fetching '' @ (if truthy_depth depth then the depth @ '' layers deep'' else ''all layers'')
       @ '' of '' @ (if truthy_str nodeId' then ''node '' @ the nodeId' @ '' from file'' else ''full file'')
       @ '' '' @ fileKey"

text \<open>\<open>`${value}`\<close> for a value of the design: an array joins its elements with
  commas, \<open>null\<close> among them as the empty string.\<close>

fun template_text :: "json \<Rightarrow> string"
  and template_elems :: "json list \<Rightarrow> string list"
where
  "template_text JNull = ''null''"
| "template_text (JBool b) = (if b then ''true'' else ''false'')"
| "template_text (JNum n) = n"
| "template_text (JStr s) = s"
| "template_text (JArr xs) = join '','' (template_elems xs)"
| "template_text (JObj ms) = ''[object Object]''"
| "template_elems [] = []"
| "template_elems (x # xs) = (if x = JNull then [] else template_text x) # template_elems xs"

definition fetched_message :: "design \<Rightarrow> string" where
  "fetched_message file =
     ''Successfully fetched file: ''
       @ (case map_of file ''name'' of None \<Rightarrow> ''undefined'' | Some v \<Rightarrow> template_text v)"

text \<open>The \<open>try\<close> block of \<open>get_figma_data\<close>, statement by statement.\<close>

definition get_figma_data_handler_try ::
  "logger \<Rightarrow> string getNode_t \<Rightarrow> string getFile_t \<Rightarrow> string \<Rightarrow> string option \<Rightarrow> string option
     \<Rightarrow> effects \<Rightarrow> (js_error + envelope) \<times> effects" where
  "get_figma_data_handler_try lg getNode getFile fileKey nodeId' depth fx =
     (case log_call lg ''info'' [LogText (fetching_message depth nodeId' fileKey)] fx of
        (Inl thrown, fx1) \<Rightarrow> (Inl thrown, fx1)
      | (Inr u, fx1) \<Rightarrow>
          (let fx2 = issue Await
                       (issue (if truthy_str nodeId' then GetNode fileKey (the nodeId') depth
                               else GetFile fileKey depth) fx1)
           in case (if truthy_str nodeId' then getNode fileKey (the nodeId') depth
                    else getFile fileKey depth) of
                Inl e \<Rightarrow> (Inl e, fx2)
              | Inr file \<Rightarrow>
                  (case log_call lg ''info'' [LogText (fetched_message file)] fx2 of
                     (Inl thrown, fx3) \<Rightarrow> (Inl thrown, fx3)
                   | (Inr u', fx3) \<Rightarrow>
                       (case map_of file ''nodes'' of
                          Some (JArr nodes) \<Rightarrow>
                            (Inr \<lparr>isError = None,
                                  content = [\<lparr>block_type = ''text'',
                                              block_text = resultJson (metadata_of file) nodes
                                                             (map_of file ''globalVars'')\<rparr>]\<rparr>,
                             fx3)
                        | other \<Rightarrow> (Inl (map_TypeError other), fx3)))))"

definition get_figma_data_handler ::
  "logger \<Rightarrow> string getNode_t \<Rightarrow> string getFile_t \<Rightarrow> string \<Rightarrow> string option \<Rightarrow> string option
     \<Rightarrow> effects \<Rightarrow> (js_error + envelope) \<times> effects" where
  "get_figma_data_handler lg getNode getFile fileKey nodeId' depth fx =
     (case get_figma_data_handler_try lg getNode getFile fileKey nodeId' depth fx of
        (Inr result, fx1) \<Rightarrow> (Inr result, fx1)
      | (Inl error, fx1) \<Rightarrow>
          (case log_call lg ''error''
                  [LogText (''Error fetching file '' @ fileKey @ '':''), LogError error] fx1 of
             (Inl thrown, fx2) \<Rightarrow> (Inl thrown, fx2)
           | (Inr u, fx2) \<Rightarrow> (Inr (error_envelope ''Error fetching file: '' error), fx2)))"

section \<open>Properties\<close>

subsection \<open>Helper facts\<close>

lemmas number_defs =
  StringToNumber_def trim_def trim_start_def ws_tokens_def starts_with_def
  non_decimal_literal_def str_decimal_literal_def unsigned_decimal_def mantissa_def
  is_exp_char_def is_digit_def digit_in_def digits_val_def round_ends_def signed_integer_def

lemma Number_js_abc: "Number_js (Some ''abc'') = NaN"
  by (simp add: number_defs)

lemma Number_js_zero: "Number_js (Some ''0'') = Fin 0"
  by (simp add: number_defs)

text \<open>The element \<open>find\<close> returns for the predicate \<open>!success\<close> is falsy whether
  or not one is found, so its negation is always true.\<close>

lemma find_falsy: "\<not> truthy (js_find (\<lambda>success. \<not> truthy success) ds)"
  by (induction ds) (auto simp: js_find_def)

lemma saveSuccess_always: "saveSuccess ds"
  by (simp add: saveSuccess_def find_falsy)

lemma endsWith_suffix: "endsWith s suf = suffix suf s"
proof
  assume "endsWith s suf"
  then have "s = take (length s - length suf) s @ suf"
    by (metis append_take_drop_id endsWith_def)
  then show "suffix suf s"
    by (metis suffixI)
next
  assume "suffix suf s"
  then obtain p where "s = p @ suf"
    by (auto simp: suffix_def)
  then show "endsWith s suf"
    by (simp add: endsWith_def)
qed

lemma message_in_toString: "sublist (message e) (label @ error_toString e)"
proof -
  have "\<exists>ps. error_toString e = ps @ message e"
    by (simp add: error_toString_def)
  then obtain ps where "label @ error_toString e = (label @ ps) @ message e @ []"
    by auto
  then show ?thesis
    unfolding sublist_def by blast
qed


lemma downloads_joined:
  "getImageFills fileKey (imageFills nodes) localPath = Inr f \<Longrightarrow>
   getImages fileKey (renderRequests nodes) localPath = Inr r \<Longrightarrow>
   downloads rf getImageFills getImages fileKey nodes localPath = Inr (f @ r)"
  by (simp add: downloads_def promise_all2_def)

subsection \<open>The download summary\<close>

text \<open>
  C1. The claim: over N requested nodes of which K downloads come back falsy, the
  handler answers \<open>Failed\<close> exactly when K > 0. The code does not: one node is
  requested, its download comes back \<open>null\<close> (N = 1, K = 1), and the handler
  answers with the success text. (\<open>saveSuccess_always\<close> above: the flag is true for
  every list of downloads.)
\<close>

theorem download_failure_reported_as_success:
  "download_figma_images True
     (\<lambda>fileKey reqs localPath. Inr (map (\<lambda>n. Null) reqs))
     (\<lambda>fileKey reqs localPath. Inr (map (\<lambda>n. Null) reqs))
     ''abc123'' [\<lparr>nodeId = ''1:2'', fileName = ''icon.svg'', imageRef = None\<rparr>] ''/tmp/out''
   = Inr \<lparr>isError = None,
          content = [\<lparr>block_type = ''text'',
                      block_text = ''Success, 1 images downloaded: ''\<rparr>]\<rparr>"
  by (simp add: download_figma_images_def download_figma_images_try_def try_catch_def
      downloads_def imageFills_def renderRequests_def promise_all2_def download_text_def
      saveSuccess_def js_find_def nat_toString.simps)

text \<open>
  C10. With an empty \<open>nodes\<close> array, when both download calls succeed with one
  entry for each request (none), the handler returns an envelope without \<open>isError\<close>
  whose text begins with \<open>Success, 0 images downloaded\<close>.
\<close>

theorem download_empty_nodes_success:
  "getImageFills fileKey [] localPath = Inr f \<Longrightarrow>
   getImages fileKey [] localPath = Inr r \<Longrightarrow>
   one_per_request (getImageFills fileKey [] localPath) ([] :: image_node list) \<Longrightarrow>
   one_per_request (getImages fileKey [] localPath) ([] :: render_request list) \<Longrightarrow>
   download_figma_images rf getImageFills getImages fileKey [] localPath
     = Inr \<lparr>isError = None,
            content = [\<lparr>block_type = ''text'',
                        block_text = ''Success, 0 images downloaded: ''\<rparr>]\<rparr>
   \<and> prefix ''Success, 0 images downloaded'' ''Success, 0 images downloaded: ''"
proof -
  assume a: "getImageFills fileKey [] localPath = Inr f" "getImages fileKey [] localPath = Inr r"
    "one_per_request (getImageFills fileKey [] localPath) ([] :: image_node list)"
    "one_per_request (getImages fileKey [] localPath) ([] :: render_request list)"
  then have e: "f = []" "r = []"
    by (simp_all add: one_per_request_def)
  have i: "imageFills [] = []" "renderRequests [] = []"
    by (simp_all add: imageFills_def renderRequests_def)
  have "downloads rf getImageFills getImages fileKey [] localPath = Inr []"
    using downloads_joined [of getImageFills fileKey "[]" localPath f getImages r rf] a e i
    by simp
  moreover have "download_text [] = ''Success, 0 images downloaded: ''"
    by (simp add: download_text_def saveSuccess_always nat_toString.simps)
  ultimately show ?thesis
    by (simp add: download_figma_images_def download_figma_images_try_def try_catch_def)
qed

theorem download_empty_nodes_success_witness:
  "download_figma_images True (\<lambda>fileKey reqs localPath. Inr (map (\<lambda>n. Null) reqs))
      (\<lambda>fileKey reqs localPath. Inr (map (\<lambda>n. Null) reqs)) ''abc123'' [] ''/tmp/out''
     = Inr \<lparr>isError = None,
            content = [\<lparr>block_type = ''text'',
                        block_text = ''Success, 0 images downloaded: ''\<rparr>]\<rparr>"
  using download_empty_nodes_success
          [of "\<lambda>fileKey reqs localPath. Inr (map (\<lambda>n. Null) reqs)" "''abc123''" "''/tmp/out''" "[]"
              "\<lambda>fileKey reqs localPath. Inr (map (\<lambda>n. Null) reqs)" "[]" True]
  by (simp add: one_per_request_def)

subsection \<open>Exceptions inside a handler\<close>

text \<open>
  The envelope side: whatever is thrown inside the \<open>try\<close> block of either handler,
  the envelope has \<open>isError\<close> true and one text block that holds the exception's
  message.
\<close>

lemma exception_to_error_envelope:
  "(get_figma_data_try getNode getFile fileKey nid depth = Inl e \<longrightarrow>
      get_figma_data getNode getFile fileKey nid depth
        = Inr \<lparr>isError = Some True,
               content = [\<lparr>block_type = ''text'',
                           block_text = ''Error fetching file: '' @ error_toString e\<rparr>]\<rparr>
      \<and> sublist (message e) (''Error fetching file: '' @ error_toString e))
   \<and> (download_figma_images_try rf getImageFills getImages fileKey nodes localPath = Inl e \<longrightarrow>
      download_figma_images rf getImageFills getImages fileKey nodes localPath
        = Inr \<lparr>isError = Some True,
               content = [\<lparr>block_type = ''text'',
                           block_text = ''Error downloading images: '' @ error_toString e\<rparr>]\<rparr>
      \<and> sublist (message e) (''Error downloading images: '' @ error_toString e))
   \<and> get_figma_data getNode getFile fileKey nid depth \<notin> range Inl
   \<and> download_figma_images rf getImageFills getImages fileKey nodes localPath \<notin> range Inl"
proof (intro conjI impI)
  assume "get_figma_data_try getNode getFile fileKey nid depth = Inl e"
  then show "get_figma_data getNode getFile fileKey nid depth
        = Inr \<lparr>isError = Some True,
               content = [\<lparr>block_type = ''text'',
                           block_text = ''Error fetching file: '' @ error_toString e\<rparr>]\<rparr>"
    by (simp add: get_figma_data_def try_catch_def error_envelope_def)
next
  assume "download_figma_images_try rf getImageFills getImages fileKey nodes localPath = Inl e"
  then show "download_figma_images rf getImageFills getImages fileKey nodes localPath
        = Inr \<lparr>isError = Some True,
               content = [\<lparr>block_type = ''text'',
                           block_text = ''Error downloading images: '' @ error_toString e\<rparr>]\<rparr>"
    by (simp add: download_figma_images_def try_catch_def error_envelope_def)
next
  show "get_figma_data getNode getFile fileKey nid depth \<notin> range Inl"
    by (auto simp: get_figma_data_def try_catch_def split: sum.splits)
next
  show "download_figma_images rf getImageFills getImages fileKey nodes localPath \<notin> range Inl"
    by (auto simp: download_figma_images_def try_catch_def split: sum.splits)
qed (rule message_in_toString)+

text \<open>The handlers with their \<open>Logger\<close> calls return the same as their envelope
  side whenever no \<open>Logger\<close> call throws, as before \<open>connect\<close>;
  \<open>download_figma_images\<close> has no \<open>Logger\<close> call on its way to a result of the
  \<open>try\<close> block; and it issues both calls of the service in every run.\<close>

lemma log_call_quiet:
  "\<forall>send. lg = Some send \<longrightarrow> (\<forall>m e. send m \<noteq> Throws e) \<Longrightarrow>
     log_call lg lvl args fx = (Inl e, fx') \<Longrightarrow> False"
  by (cases lg) (auto simp: log_call_def Let_def split: send_outcome.splits)

lemma log_call_before_connect: "log_call None lvl args fx = (Inr (), fx)"
  by (simp add: log_call_def)

lemma download_handler_result:
  assumes "\<forall>send. lg = Some send \<longrightarrow> (\<forall>m e. send m \<noteq> Throws e)"
  shows "fst (download_figma_images_handler lg rf getImageFills getImages fileKey nodes localPath fx)
           = download_figma_images rf getImageFills getImages fileKey nodes localPath"
  by (auto simp: download_figma_images_handler_def download_figma_images_def try_catch_def Let_def
      split: sum.splits prod.splits dest: log_call_quiet [OF assms])

lemma get_figma_data_handler_try_result:
  assumes "\<forall>send. lg = Some send \<longrightarrow> (\<forall>m e. send m \<noteq> Throws e)"
  shows "fst (get_figma_data_handler_try lg getNode getFile fileKey nid depth fx)
           = get_figma_data_try getNode getFile fileKey nid depth"
proof -
  obtain r1 fx1
    where l1: "log_call lg ''info'' [LogText (fetching_message depth nid fileKey)] fx = (r1, fx1)"
    by (cases "log_call lg ''info'' [LogText (fetching_message depth nid fileKey)] fx") simp
  then have r1: "r1 = Inr ()"
    using log_call_quiet [OF assms] by (cases r1) auto
  show ?thesis
  proof (cases "if truthy_str nid then getNode fileKey (the nid) depth else getFile fileKey depth")
    case (Inl e)
    then show ?thesis
      using l1 r1 by (simp add: get_figma_data_handler_try_def get_figma_data_try_def Let_def)
  next
    case (Inr design)
    obtain r2 fx2 where l2: "log_call lg ''info'' [LogText (fetched_message design)]
        (issue Await (issue (if truthy_str nid then GetNode fileKey (the nid) depth
                             else GetFile fileKey depth) fx1))
        = (r2, fx2)"
      by (cases "log_call lg ''info'' [LogText (fetched_message design)]
        (issue Await (issue (if truthy_str nid then GetNode fileKey (the nid) depth
                             else GetFile fileKey depth) fx1))")
         simp
    then have r2: "r2 = Inr ()"
      using log_call_quiet [OF assms] by (cases r2) auto
    show ?thesis
      using l1 r1 l2 r2 Inr
      by (simp add: get_figma_data_handler_try_def get_figma_data_try_def Let_def
          split: option.splits json.splits)
  qed
qed

lemma get_figma_data_handler_result:
  assumes "\<forall>send. lg = Some send \<longrightarrow> (\<forall>m e. send m \<noteq> Throws e)"
  shows "fst (get_figma_data_handler lg getNode getFile fileKey nid depth fx)
           = get_figma_data getNode getFile fileKey nid depth"
  using get_figma_data_handler_try_result [OF assms, of getNode getFile fileKey nid depth fx]
  by (auto simp: get_figma_data_handler_def get_figma_data_def try_catch_def
      split: sum.splits prod.splits dest: log_call_quiet [OF assms])

lemma download_handler_success:
  "download_figma_images_try rf getImageFills getImages fileKey nodes localPath = Inr result \<Longrightarrow>
   fst (download_figma_images_handler lg rf getImageFills getImages fileKey nodes localPath fx)
     = Inr result
   \<and> unhandled (snd (download_figma_images_handler lg rf getImageFills getImages
                        fileKey nodes localPath fx))
     = unhandled fx"
  by (simp add: download_figma_images_handler_def issue_def Let_def)


text \<open>A \<open>sendLoggingMessage\<close> that throws makes the \<open>catch\<close> block throw: the
  exception leaves the handler.\<close>

lemma handler_throw_leaves_handler:
  "fst (download_figma_images_handler
     (Some (\<lambda>m. Throws (new_Error ''Not connected'')))
     True (\<lambda>fileKey reqs localPath. Inr [])
     (\<lambda>fileKey reqs localPath. Inl (new_Error ''429 Too Many Requests''))
     ''abc123'' [] ''/tmp/out'' no_effects)
   = Inl (new_Error ''Not connected'')"
  by (simp add: download_figma_images_handler_def download_figma_images_try_def downloads_def
      promise_all2_def imageFills_def renderRequests_def log_call_def issue_def no_effects_def)


subsection \<open>Starting the server\<close>

text \<open>
  C3. For every server mode other than \<open>stdio\<close> the \<open>try\<close> block of
  \<open>startServer\<close> throws: \<open>http\<close> the not-implemented error, any other mode the
  unsupported-mode error that names it. \<open>startServer\<close> logs the error and exits with
  status 1 without a call of \<open>secureConnect\<close>, and so does the whole module when
  both credentials are set.
\<close>

theorem startServer_other_mode_fails:
  "serverMode env \<noteq> ''stdio'' \<Longrightarrow>
     startServer_try secureConnect mcpName env p
       = (Inl (new_Error (if serverMode env = ''http''
                          then ''HTTP server mode not yet implemented''
                          else ''Unsupported server mode: '' @ serverMode env)), p)
     \<and> startServer secureConnect mcpName env p
       = (Inr (), p\<lparr>console_error := console_error p @
                     [(''Failed to start server:'',
                       new_Error (if serverMode env = ''http''
                                  then ''HTTP server mode not yet implemented''
                                  else ''Unsupported server mode: '' @ serverMode env))],
                    exit_code := Some 1\<rparr>)
     \<and> (env ''AZTP_API_KEY'' = Some apiKey \<and> apiKey \<noteq> []
          \<and> env ''MCP_NAME'' = Some mcpName \<and> mcpName \<noteq> []
          \<and> initialize apiKey mcpName = Inr secureConnect \<longrightarrow>
         index_ts initialize env
           = \<lparr>console_error =
                [(''Failed to start server:'',
                  new_Error (if serverMode env = ''http''
                             then ''HTTP server mode not yet implemented''
                             else ''Unsupported server mode: '' @ serverMode env))],
              connects = [], uncaught = None, exit_code = Some 1\<rparr>)"
  by (simp add: startServer_def startServer_try_def fail_start_def index_ts_def process_start_def)

theorem startServer_other_mode_fails_witness:
  "serverMode [''SERVER_MODE'' \<mapsto> ''http''] \<noteq> ''stdio''
   \<and> startServer (\<lambda>name opts. Inr ()) ''figma'' [''SERVER_MODE'' \<mapsto> ''http''] process_start
       = (Inr (), \<lparr>console_error = [(''Failed to start server:'',
                                      new_Error ''HTTP server mode not yet implemented'')],
                   connects = [], uncaught = None, exit_code = Some 1\<rparr>)
   \<and> serverMode [''AZTP_API_KEY'' \<mapsto> ''aztp_key'', ''MCP_NAME'' \<mapsto> ''figma'',
                  ''SERVER_MODE'' \<mapsto> ''sse''] \<noteq> ''stdio''
   \<and> index_ts (\<lambda>apiKey name. Inr (\<lambda>name opts. Inr ()))
        [''AZTP_API_KEY'' \<mapsto> ''aztp_key'', ''MCP_NAME'' \<mapsto> ''figma'', ''SERVER_MODE'' \<mapsto> ''sse'']
       = \<lparr>console_error = [(''Failed to start server:'',
                             new_Error ''Unsupported server mode: sse'')],
          connects = [], uncaught = None, exit_code = Some 1\<rparr>"
  using startServer_other_mode_fails
          [of "[''SERVER_MODE'' \<mapsto> ''http'']" "\<lambda>name opts. Inr ()" "''figma''" process_start]
        startServer_other_mode_fails
          [of "[''AZTP_API_KEY'' \<mapsto> ''aztp_key'', ''MCP_NAME'' \<mapsto> ''figma'',
                ''SERVER_MODE'' \<mapsto> ''sse'']"
              "\<lambda>name opts. Inr ()" "''figma''" process_start "''aztp_key''"
              "\<lambda>apiKey name. Inr (\<lambda>name opts. Inr ())"]
  by (simp add: serverMode_def or_str_def process_start_def)

subsection \<open>Credentials\<close>

text \<open>
  C4, as claimed: when a mandatory credential, \<open>FIGMA_API_KEY\<close> among them, is
  absent, the process exits non-zero before any channel is opened. \<open>index.ts\<close> never
  calls \<open>getServerConfig\<close> and never reads \<open>FIGMA_API_KEY\<close>: with the other two
  credentials set and \<open>FIGMA_API_KEY\<close> absent the module connects, and the process
  does not exit.
\<close>

theorem index_ts_without_figma_key_counterexample:
  "index_ts (\<lambda>apiKey name. Inr (\<lambda>name opts. Inr ()))
     [''AZTP_API_KEY'' \<mapsto> ''aztp_key'', ''MCP_NAME'' \<mapsto> ''figma'']
   = \<lparr>console_error = [],
      connects = [(''figma'', \<lparr>trustDomain = ''gptapps.ai'',
                              metadata = \<lparr>hostname = ''unknown'',
                                          environment = ''development''\<rparr>\<rparr>)],
      uncaught = None, exit_code = None\<rparr>"
  by (simp add: index_ts_def startServer_def startServer_try_def serverMode_def or_str_def
      process_start_def)

text \<open>
  C4, amended: without \<open>FIGMA_API_KEY\<close> (not set, or empty) \<open>getServerConfig\<close>
  throws, and a configuration it returns always carries the key of the environment,
  never an empty or a default one. Without \<open>AZTP_API_KEY\<close> or \<open>MCP_NAME\<close> the module
  throws at load: the process ends with status 1, nothing logged by \<open>startServer\<close> and
  no call of \<open>secureConnect\<close> made.
\<close>

theorem missing_credential_throws:
  "(\<not> truthy_str (env ''FIGMA_API_KEY'') \<longrightarrow>
      getServerConfig isStdioMode env = Inl (new_Error ''FIGMA_API_KEY is not set''))
   \<and> (getServerConfig isStdioMode env = Inr cfg \<longrightarrow>
        env ''FIGMA_API_KEY'' = Some (figmaApiKey cfg) \<and> figmaApiKey cfg \<noteq> [])
   \<and> (\<not> truthy_str (env ''AZTP_API_KEY'') \<longrightarrow>
        index_ts initialize env
          = \<lparr>console_error = [], connects = [],
             uncaught = Some (new_Error ''AZTP_API_KEY environment variable is not set''),
             exit_code = Some 1\<rparr>)
   \<and> (truthy_str (env ''AZTP_API_KEY'') \<and> \<not> truthy_str (env ''MCP_NAME'') \<longrightarrow>
        index_ts initialize env
          = \<lparr>console_error = [], connects = [],
             uncaught = Some (new_Error ''MCP_NAME environment variable is not set''),
             exit_code = Some 1\<rparr>)"
  by (cases "env ''FIGMA_API_KEY''")
     (auto simp: getServerConfig_def index_ts_def die_uncaught_def process_start_def Let_def)

theorem missing_credential_throws_witness:
  "getServerConfig False Map.empty = Inl (new_Error ''FIGMA_API_KEY is not set'')
   \<and> getServerConfig False [''FIGMA_API_KEY'' \<mapsto> ''figd_key'']
       = Inr \<lparr>figmaApiKey = ''figd_key'', port = Fin 3000\<rparr>
   \<and> index_ts (\<lambda>apiKey name. Inr (\<lambda>name opts. Inr ())) [''MCP_NAME'' \<mapsto> ''figma'']
       = \<lparr>console_error = [], connects = [],
          uncaught = Some (new_Error ''AZTP_API_KEY environment variable is not set''),
          exit_code = Some 1\<rparr>
   \<and> index_ts (\<lambda>apiKey name. Inr (\<lambda>name opts. Inr ())) [''AZTP_API_KEY'' \<mapsto> ''aztp_key'']
       = \<lparr>console_error = [], connects = [],
          uncaught = Some (new_Error ''MCP_NAME environment variable is not set''),
          exit_code = Some 1\<rparr>"
proof -
  have cfg: "getServerConfig False [''FIGMA_API_KEY'' \<mapsto> ''figd_key'']
       = Inr \<lparr>figmaApiKey = ''figd_key'', port = Fin 3000\<rparr>"
    by (simp add: getServerConfig_def or_num_def)
  show ?thesis
    using missing_credential_throws
            [of Map.empty False "\<lparr>figmaApiKey = ''figd_key'', port = Fin 3000\<rparr>"
                "\<lambda>apiKey name. Inr (\<lambda>name opts. Inr ())"]
          missing_credential_throws
            [of "[''MCP_NAME'' \<mapsto> ''figma'']" False
                "\<lparr>figmaApiKey = ''figd_key'', port = Fin 3000\<rparr>"
                "\<lambda>apiKey name. Inr (\<lambda>name opts. Inr ())"]
          missing_credential_throws
            [of "[''AZTP_API_KEY'' \<mapsto> ''aztp_key'']" False
                "\<lparr>figmaApiKey = ''figd_key'', port = Fin 3000\<rparr>"
                "\<lambda>apiKey name. Inr (\<lambda>name opts. Inr ())"]
          missing_credential_throws
            [of "[''FIGMA_API_KEY'' \<mapsto> ''figd_key'']" False
                "\<lparr>figmaApiKey = ''figd_key'', port = Fin 3000\<rparr>"
                "\<lambda>apiKey name. Inr (\<lambda>name opts. Inr ())"]
          cfg
    by simp
qed

subsection \<open>The port\<close>

text \<open>
  C5, as claimed: for every environment \<open>getServerConfig(true)\<close> returns port 0.
  In the environment with no variable set it returns nothing: it throws.
\<close>

theorem getServerConfig_without_key_counterexample:
  "getServerConfig True Map.empty = Inl (new_Error ''FIGMA_API_KEY is not set'')"
  by (simp add: getServerConfig_def)

text \<open>
  C5, amended: for every environment in which \<open>FIGMA_API_KEY\<close> is set and not empty,
  \<open>getServerConfig(true)\<close> returns port 0, and \<open>getServerConfig(false)\<close> returns port
  3000 whenever \<open>PORT\<close> is not set.
\<close>

theorem getServerConfig_port_default:
  "env ''FIGMA_API_KEY'' = Some key \<Longrightarrow> key \<noteq> [] \<Longrightarrow>
     getServerConfig True env = Inr \<lparr>figmaApiKey = key, port = Fin 0\<rparr>
     \<and> (env ''PORT'' = None \<longrightarrow>
          getServerConfig False env = Inr \<lparr>figmaApiKey = key, port = Fin 3000\<rparr>)"
  by (simp add: getServerConfig_def or_num_def)

theorem getServerConfig_port_default_witness:
  "getServerConfig True [''FIGMA_API_KEY'' \<mapsto> ''figd_key'']
     = Inr \<lparr>figmaApiKey = ''figd_key'', port = Fin 0\<rparr>
   \<and> getServerConfig False [''FIGMA_API_KEY'' \<mapsto> ''figd_key'']
       = Inr \<lparr>figmaApiKey = ''figd_key'', port = Fin 3000\<rparr>"
  using getServerConfig_port_default [of "[''FIGMA_API_KEY'' \<mapsto> ''figd_key'']" "''figd_key''"]
  by simp

text \<open>
  C9, as claimed: in non-stdio mode a \<open>PORT\<close> that is not a positive number gives
  port 3000. \<open>PORT=-5\<close> is not a positive number and gives port \<open>-5\<close>; and with
  \<open>PORT=abc\<close> but no \<open>FIGMA_API_KEY\<close> the call fails.
\<close>

theorem getServerConfig_negative_port_counterexample:
  "getServerConfig False [''FIGMA_API_KEY'' \<mapsto> ''figd_key'', ''PORT'' \<mapsto> ''-5'']
     = Inr \<lparr>figmaApiKey = ''figd_key'', port = Fin (- 5)\<rparr>
   \<and> getServerConfig False [''PORT'' \<mapsto> ''abc'']
     = Inl (new_Error ''FIGMA_API_KEY is not set'')"
  by (simp add: getServerConfig_def or_num_def number_defs)

text \<open>
  C9, amended: in non-stdio mode with \<open>FIGMA_API_KEY\<close> set, whenever \<open>PORT\<close> is set
  to a string that \<open>Number\<close> reads as \<open>NaN\<close> or as zero (text that is no number, or
  \<open>0\<close>), \<open>getServerConfig\<close> returns port 3000.
\<close>

theorem getServerConfig_falsy_port:
  "env ''FIGMA_API_KEY'' = Some key \<Longrightarrow> key \<noteq> [] \<Longrightarrow> env ''PORT'' = Some s \<Longrightarrow>
   Number_js (Some s) = NaN \<or> Number_js (Some s) = Fin 0 \<Longrightarrow>
   getServerConfig False env = Inr \<lparr>figmaApiKey = key, port = Fin 3000\<rparr>"
  by (auto simp add: getServerConfig_def or_num_def)

theorem getServerConfig_falsy_port_witness:
  "getServerConfig False [''FIGMA_API_KEY'' \<mapsto> ''figd_key'', ''PORT'' \<mapsto> ''abc'']
     = Inr \<lparr>figmaApiKey = ''figd_key'', port = Fin 3000\<rparr>
   \<and> getServerConfig False [''FIGMA_API_KEY'' \<mapsto> ''figd_key'', ''PORT'' \<mapsto> ''0'']
     = Inr \<lparr>figmaApiKey = ''figd_key'', port = Fin 3000\<rparr>"
  using getServerConfig_falsy_port
          [of "[''FIGMA_API_KEY'' \<mapsto> ''figd_key'', ''PORT'' \<mapsto> ''abc'']" "''figd_key''" "''abc''"]
        getServerConfig_falsy_port
          [of "[''FIGMA_API_KEY'' \<mapsto> ''figd_key'', ''PORT'' \<mapsto> ''0'']" "''figd_key''" "''0''"]
        Number_js_abc Number_js_zero
  by simp

subsection \<open>The two download batches\<close>

text \<open>
  C7. Every render request has the file type \<open>svg\<close> if its file name ends with
  \<open>.svg\<close> and \<open>png\<close> otherwise, and every requested node without an \<open>imageRef\<close>
  (none, or the empty string) has its render request, with that file type, in the
  batch.
\<close>

theorem renderRequests_fileType:
  "(\<forall>r \<in> set (renderRequests nodes).
      fileType r = (if suffix ''.svg'' (fileName r) then Svg else Png))
   \<and> (\<forall>n \<in> set nodes. \<not> truthy_str (imageRef n) \<longrightarrow>
        \<lparr>nodeId = nodeId n, fileName = fileName n,
         fileType = (if suffix ''.svg'' (fileName n) then Svg else Png)\<rparr>
          \<in> set (renderRequests nodes))"
  by (auto simp: renderRequests_def renderRequest_def endsWith_suffix)

theorem renderRequests_fileType_witness:
  "renderRequests [\<lparr>nodeId = ''1:2'', fileName = ''icon.svg'', imageRef = None\<rparr>,
                   \<lparr>nodeId = ''1:3'', fileName = ''photo.png'', imageRef = Some ''abc''\<rparr>,
                   \<lparr>nodeId = ''1:4'', fileName = ''logo.svg.jpg'', imageRef = None\<rparr>]
     = [\<lparr>nodeId = ''1:2'', fileName = ''icon.svg'', fileType = Svg\<rparr>,
        \<lparr>nodeId = ''1:4'', fileName = ''logo.svg.jpg'', fileType = Png\<rparr>]
   \<and> \<lparr>nodeId = ''1:2'', fileName = ''icon.svg'', fileType = Svg\<rparr>
        \<in> set (renderRequests
                 [\<lparr>nodeId = ''1:2'', fileName = ''icon.svg'', imageRef = None\<rparr>,
                  \<lparr>nodeId = ''1:3'', fileName = ''photo.png'', imageRef = Some ''abc''\<rparr>,
                  \<lparr>nodeId = ''1:4'', fileName = ''logo.svg.jpg'', imageRef = None\<rparr>])"
  using renderRequests_fileType
          [of "[\<lparr>nodeId = ''1:2'', fileName = ''icon.svg'', imageRef = None\<rparr>,
                \<lparr>nodeId = ''1:3'', fileName = ''photo.png'', imageRef = Some ''abc''\<rparr>,
                \<lparr>nodeId = ''1:4'', fileName = ''logo.svg.jpg'', imageRef = None\<rparr>]"]
  by (simp add: renderRequests_def renderRequest_def endsWith_def)



subsection \<open>The document text\<close>

text \<open>The lexer on the pieces \<open>JSON.stringify\<close> writes.\<close>

lemmas char_class_defs = is_num_char_def is_digit_def digit_in_def is_exp_char_def is_json_ws_def

lemma lex_ws: "list_all is_json_ws w \<Longrightarrow> lex (w @ rest) = lex rest"
  by (induction w) simp_all

lemma num_char_not_special:
  "is_num_char c \<Longrightarrow>
     \<not> is_json_ws c \<and> c \<noteq> CHR ''{'' \<and> c \<noteq> CHR ''}'' \<and> c \<noteq> CHR ''['' \<and> c \<noteq> CHR '']''
     \<and> c \<noteq> CHR '':'' \<and> c \<noteq> CHR '','' \<and> c \<noteq> CHR 0x22"
  by (auto simp: char_class_defs)

lemma takeWhile_run: "list_all P xs \<Longrightarrow> (case ys of [] \<Rightarrow> True | y # _ \<Rightarrow> \<not> P y) \<Longrightarrow> takeWhile P (xs @ ys) = xs"
  by (induction xs) (auto split: list.splits)

lemma dropWhile_run: "list_all P xs \<Longrightarrow> (case ys of [] \<Rightarrow> True | y # _ \<Rightarrow> \<not> P y) \<Longrightarrow> dropWhile P (xs @ ys) = ys"
  by (induction xs) (auto split: list.splits)

lemma lex_number:
  assumes "num_literal n" "delim rest"
  shows "lex (n @ rest) = cons_token (TNumber n) (lex rest)"
proof -
  from assms obtain c cs where n: "n = c # cs" and c: "is_num_char c" and cs: "list_all is_num_char cs"
    and ok: "is_json_number (c # cs)"
    by (cases n) (auto simp: num_literal_def)
  have t: "takeWhile is_num_char (cs @ rest) = cs" and d: "dropWhile is_num_char (cs @ rest) = rest"
    using cs assms(2) by (simp_all add: takeWhile_run dropWhile_run delim_def)
  show ?thesis
    using num_char_not_special [OF c] c ok by (simp add: n t d)
qed

lemma lex_keywords:
  "lex (''null'' @ rest) = cons_token TNull (lex rest)"
  "lex (''true'' @ rest) = cons_token TTrue (lex rest)"
  "lex (''false'' @ rest) = cons_token TFalse (lex rest)"
  by (simp_all add: char_class_defs)

lemma lex_punct:
  "lex (CHR ''{'' # rest) = cons_token TLBrace (lex rest)"
  "lex (CHR ''}'' # rest) = cons_token TRBrace (lex rest)"
  "lex (CHR ''['' # rest) = cons_token TLBrack (lex rest)"
  "lex (CHR '']'' # rest) = cons_token TRBrack (lex rest)"
  "lex (CHR '':'' # rest) = cons_token TColon (lex rest)"
  "lex (CHR '','' # rest) = cons_token TComma (lex rest)"
  by (simp_all add: is_json_ws_def)


lemma hex_char_digit: "k < 16 \<Longrightarrow> digit_in 16 (hex_char k) = Some k"
proof -
  assume "k < 16"
  then have "k = 0 \<or> k = 1 \<or> k = 2 \<or> k = 3 \<or> k = 4 \<or> k = 5 \<or> k = 6 \<or> k = 7
    \<or> k = 8 \<or> k = 9 \<or> k = 10 \<or> k = 11 \<or> k = 12 \<or> k = 13 \<or> k = 14 \<or> k = 15"
    by arith
  then show ?thesis
    by (elim disjE) (simp_all add: hex_char_def digit_in_def)
qed

lemma hex4_control:
  assumes "n < 32"
  shows "hex4 [CHR ''0'', CHR ''0'', hex_char (n div 16), hex_char (n mod 16)] = Some n"
proof -
  have a: "digit_in 16 (hex_char (n div 16)) = Some (n div 16)"
    using assms by (intro hex_char_digit) simp
  have b: "digit_in 16 (hex_char (n mod 16)) = Some (n mod 16)"
    by (intro hex_char_digit) simp
  have z: "digit_in 16 (CHR ''0'') = Some 0"
    by (simp add: digit_in_def)
  show ?thesis
    by (simp add: hex4_def digits_val_def a b z)
qed

lemma scan_quote_char:
  "scan_string (quote_char c @ rest)
     = (case scan_string rest of
          None \<Rightarrow> None
        | Some (s, k) \<Rightarrow> Some (c # s, k + length (quote_char c)))"
proof (cases "quote_char c = [c]")
  case True
  then have "c \<noteq> CHR 0x22" "c \<noteq> CHR 0x5C" "\<not> (of_char c :: nat) < 0x20"
    by (auto simp: quote_char_def split: if_splits)
  then show ?thesis
    using True by (simp split: option.splits)
next
  case False
  show ?thesis
  proof (cases "c \<in> {CHR 0x08, CHR 0x09, CHR 0x0A, CHR 0x0C, CHR 0x0D, CHR 0x22, CHR 0x5C}")
    case True
    then show ?thesis
      by (auto simp: quote_char_def unescape_def split: option.splits)
  next
    case other: False
    with False have lt: "(of_char c :: nat) < 0x20"
      by (auto simp: quote_char_def split: if_splits)
    define n where "n = (of_char c :: nat)"
    have q: "quote_char c = [CHR 0x5C, CHR ''u'', CHR ''0'', CHR ''0'', hex_char (n div 16), hex_char (n mod 16)]"
      using other lt by (simp add: quote_char_def n_def)
    have u: "utf8 n = [c]"
      using lt by (simp add: utf8_def n_def)
    have h: "hex4 [CHR ''0'', CHR ''0'', hex_char (n div 16), hex_char (n mod 16)] = Some n"
      using lt by (intro hex4_control) (simp add: n_def)
    have nl: "\<not> (0xD800 \<le> n)"
      using lt by (simp add: n_def)
    show ?thesis
      using nl by (simp add: q h u split: option.splits)
  qed
qed

lemma scan_quoted:
  "scan_string (concat (map quote_char s) @ CHR 0x22 # rest)
     = Some (s, length (concat (map quote_char s)) + 1)"
  by (induction s) (simp_all add: scan_quote_char)

lemma lex_string: "lex (QuoteJSONString s @ rest) = cons_token (TString s) (lex rest)"
  by (simp add: QuoteJSONString_def scan_quoted is_json_ws_def)


declare lex.simps(2) [simp del]

lemma cons_token_prepend: "cons_token t r = prepend_tokens [t] r"
  by (simp add: cons_token_def prepend_tokens_def)

lemma prepend_prepend [simp]: "prepend_tokens a (prepend_tokens b r) = prepend_tokens (a @ b) r"
  by (cases r) (simp_all add: prepend_tokens_def)

lemma prepend_Some [simp]: "prepend_tokens a (Some ts) = Some (a @ ts)"
  by (simp add: prepend_tokens_def)

lemma join_Cons: "join sep (p # ps) = (if ps = [] then p else p @ sep @ join sep ps)"
  by (cases ps) simp_all

lemma SerializeJSONArray_Nil [simp]: "(SerializeJSONArray gap ind xs = []) = (xs = [])"
  by (cases xs) simp_all

lemma SerializeJSONObject_Nil [simp]: "(SerializeJSONObject gap ind ms = []) = (ms = [])"
  by (cases ms) auto

lemma delim_simps [simp]:
  "delim []" "delim (CHR '','' # r)" "delim (CHR '']'' # r)" "delim (CHR ''}'' # r)"
  "delim (CHR 0x0A # r)" "delim (CHR '' '' # r)"
  by (simp_all add: delim_def char_class_defs)

lemma lex_wrapped:
  assumes parts: "\<And>w rest. list_all is_json_ws w \<Longrightarrow> delim rest \<Longrightarrow>
            lex (join (CHR '','' # w) partial @ rest) = prepend_tokens inner (lex rest)"
    and ws: "list_all is_json_ws gap" "list_all is_json_ws stepback"
    and ne: "partial \<noteq> []"
    and br: "lex (rb # rest) = prepend_tokens [trb] (lex rest)"
            "\<And>r. lex (lb # r) = prepend_tokens [tlb] (lex r)"
            "delim (rb # rest)"
  shows "lex (wrap_parts gap stepback lb rb partial @ rest)
           = prepend_tokens (tlb # inner @ [trb]) (lex rest)"
proof (cases "gap = []")
  case True
  have "lex (join '','' partial @ rb # rest) = prepend_tokens inner (lex (rb # rest))"
    using parts [of "[]" "rb # rest"] br(3) by simp
  then show ?thesis
    using True ne by (simp add: wrap_parts_def br)
next
  case False
  have w: "list_all is_json_ws (CHR 0x0A # stepback @ gap)"
    using ws by (simp add: is_json_ws_def)
  have "lex (join (CHR '','' # CHR 0x0A # stepback @ gap) partial @ (CHR 0x0A # stepback) @ rb # rest)
          = prepend_tokens inner (lex ((CHR 0x0A # stepback) @ rb # rest))"
    using parts [OF w, of "(CHR 0x0A # stepback) @ rb # rest"] by simp
  also have "lex ((CHR 0x0A # stepback) @ rb # rest) = lex (rb # rest)"
    using ws by (intro lex_ws) (simp add: is_json_ws_def)
  finally have inner: "lex (join (CHR '','' # CHR 0x0A # stepback @ gap) partial @ CHR 0x0A # stepback @ rb # rest)
          = prepend_tokens (inner @ [trb]) (lex rest)"
    by (simp add: br)
  have "lex ((CHR 0x0A # stepback @ gap) @ join (CHR '','' # CHR 0x0A # stepback @ gap) partial @ CHR 0x0A # stepback @ rb # rest)
          = prepend_tokens (inner @ [trb]) (lex rest)"
    using lex_ws [OF w] inner by simp
  then show ?thesis
    using False ne by (simp add: wrap_parts_def Let_def br(2))
qed


lemma lex_serialized:
  "wf_json v \<Longrightarrow> list_all is_json_ws gap \<Longrightarrow> list_all is_json_ws ind \<Longrightarrow> delim rest \<Longrightarrow>
     lex (SerializeJSONProperty gap ind v @ rest) = prepend_tokens (tokens_of v) (lex rest)"
  "wf_elems xs \<Longrightarrow> xs \<noteq> [] \<Longrightarrow> list_all is_json_ws gap \<Longrightarrow> list_all is_json_ws ind \<Longrightarrow>
     list_all is_json_ws w \<Longrightarrow> delim rest \<Longrightarrow>
     lex (join (CHR '','' # w) (SerializeJSONArray gap ind xs) @ rest)
       = prepend_tokens (elems_tokens xs) (lex rest)"
  "wf_members ms \<Longrightarrow> ms \<noteq> [] \<Longrightarrow> list_all is_json_ws gap \<Longrightarrow> list_all is_json_ws ind \<Longrightarrow>
     list_all is_json_ws w \<Longrightarrow> delim rest \<Longrightarrow>
     lex (join (CHR '','' # w) (SerializeJSONObject gap ind ms) @ rest)
       = prepend_tokens (members_tokens ms) (lex rest)"
proof (induction v and xs and ms arbitrary: gap ind rest and gap ind rest w and gap ind rest w
       rule: wf_json_wf_elems_wf_members.induct)
  case 1
  show ?case
    using lex_keywords(1) [of rest] by (simp add: cons_token_prepend)
next
  case (2 b)
  show ?case
    using lex_keywords(2,3) [of rest] by (simp add: cons_token_prepend)
next
  case (3 n)
  then show ?case
    by (simp add: lex_number cons_token_prepend)
next
  case (4 s)
  show ?case
    by (simp add: lex_string cons_token_prepend)
next
  case (5 xs)
  show ?case
  proof (cases "xs = []")
    case True
    then show ?thesis
      by (simp add: wrap_parts_def lex_punct cons_token_prepend)
  next
    case False
    have "lex (wrap_parts gap ind (CHR ''['') (CHR '']'') (SerializeJSONArray gap (ind @ gap) xs) @ rest)
            = prepend_tokens (TLBrack # elems_tokens xs @ [TRBrack]) (lex rest)"
    proof (rule lex_wrapped)
      fix w r
      assume "list_all is_json_ws w" "delim r"
      then show "lex (join (CHR '','' # w) (SerializeJSONArray gap (ind @ gap) xs) @ r)
                   = prepend_tokens (elems_tokens xs) (lex r)"
        using "5.IH" [of gap "ind @ gap" w r] "5.prems" False by simp
    qed (use "5.prems" False in \<open>simp_all add: lex_punct cons_token_prepend\<close>)
    then show ?thesis
      by simp
  qed
next
  case (6 ms)
  show ?case
  proof (cases "ms = []")
    case True
    then show ?thesis
      by (simp add: wrap_parts_def lex_punct cons_token_prepend)
  next
    case False
    have "lex (wrap_parts gap ind (CHR ''{'') (CHR ''}'') (SerializeJSONObject gap (ind @ gap) ms) @ rest)
            = prepend_tokens (TLBrace # members_tokens ms @ [TRBrace]) (lex rest)"
    proof (rule lex_wrapped)
      fix w r
      assume "list_all is_json_ws w" "delim r"
      then show "lex (join (CHR '','' # w) (SerializeJSONObject gap (ind @ gap) ms) @ r)
                   = prepend_tokens (members_tokens ms) (lex r)"
        using "6.IH" [of gap "ind @ gap" w r] "6.prems" False by simp
    qed (use "6.prems" False in \<open>simp_all add: lex_punct cons_token_prepend\<close>)
    then show ?thesis
      by simp
  qed
next
  case 7
  then show ?case by simp
next
  case (8 x xs)
  show ?case
  proof (cases "xs = []")
    case True
    then show ?thesis
      using "8.IH"(1) [of gap ind rest] "8.prems" by simp
  next
    case False
    have tail: "lex (CHR '','' # w @ join (CHR '','' # w) (SerializeJSONArray gap ind xs) @ rest)
                  = prepend_tokens (TComma # elems_tokens xs) (lex rest)"
      using "8.IH"(2) [of gap ind w rest] "8.prems" False
      by (simp add: lex_punct cons_token_prepend lex_ws)
    have "lex (SerializeJSONProperty gap ind x
                 @ CHR '','' # w @ join (CHR '','' # w) (SerializeJSONArray gap ind xs) @ rest)
            = prepend_tokens (tokens_of x)
                (lex (CHR '','' # w @ join (CHR '','' # w) (SerializeJSONArray gap ind xs) @ rest))"
      using "8.IH"(1) [of gap ind "CHR '','' # w @ join (CHR '','' # w) (SerializeJSONArray gap ind xs) @ rest"]
        "8.prems" by simp
    then show ?thesis
      using False by (simp add: join_Cons tail)
  qed
next
  case 9
  then show ?case by simp
next
  case (10 k v ms)
  have key: "\<And>r. lex (QuoteJSONString k @ '':'' @ (if gap \<noteq> [] then '' '' else []) @ r)
                 = prepend_tokens [TString k, TColon] (lex r)"
    using lex_ws [of "'' ''"]
    by (simp add: lex_string lex_punct cons_token_prepend is_json_ws_def)
  show ?case
  proof (cases "ms = []")
    case True
    have "lex (SerializeJSONProperty gap ind v @ rest) = prepend_tokens (tokens_of v) (lex rest)"
      using "10.IH"(1) [of gap ind rest] "10.prems" by simp
    then show ?thesis
      using True key [of "SerializeJSONProperty gap ind v @ rest"] by simp
  next
    case False
    have tail: "lex (CHR '','' # w @ join (CHR '','' # w) (SerializeJSONObject gap ind ms) @ rest)
                  = prepend_tokens (TComma # members_tokens ms) (lex rest)"
      using "10.IH"(2) [of gap ind w rest] "10.prems" False
      by (simp add: lex_punct cons_token_prepend lex_ws)
    have "lex (SerializeJSONProperty gap ind v
                 @ CHR '','' # w @ join (CHR '','' # w) (SerializeJSONObject gap ind ms) @ rest)
            = prepend_tokens (tokens_of v)
                (lex (CHR '','' # w @ join (CHR '','' # w) (SerializeJSONObject gap ind ms) @ rest))"
      using "10.IH"(1) [of gap ind "CHR '','' # w @ join (CHR '','' # w) (SerializeJSONObject gap ind ms) @ rest"]
        "10.prems" by simp
    then show ?thesis
      using False
        key [of "SerializeJSONProperty gap ind v
                 @ CHR '','' # w @ join (CHR '','' # w) (SerializeJSONObject gap ind ms) @ rest"]
      by (simp add: join_Cons tail)
  qed
qed

text \<open>The stack machine on the tokens of a value.\<close>

lemma parse_tokens_append:
  "parse_tokens s (a @ b) = (case parse_tokens s a of None \<Rightarrow> None | Some s' \<Rightarrow> parse_tokens s' b)"
  by (induction a arbitrary: s) (simp_all split: option.splits)

lemma update_fresh: "k \<notin> fst ` set al \<Longrightarrow> AList.update k v al = al @ [(k, v)]"
  by (induction al) auto

lemma push_arr_frame: "push_value x (arr_frame acc # st) = Some (Parsing (FArrValue (acc @ [x]) # st))"
  by (simp add: arr_frame_def)

lemma open_container_expected:
  "expects_value st \<Longrightarrow> open_container f st = Some (Parsing (f # st))"
  by (cases "(f, st)" rule: open_container.cases) simp_all

lemma expects_value_frames [simp]:
  "expects_value (arr_frame acc # st)" "expects_value (FObjColon ms k # st)"
  by (simp_all add: arr_frame_def)

lemma parse_key: "parse_step (Parsing (obj_frame acc # st)) (TString k) = Some (Parsing (FObjKey acc k # st))"
  by (simp add: obj_frame_def)

lemma parse_serialized:
  "wf_json v \<Longrightarrow> expects_value st \<Longrightarrow>
     parse_tokens (Parsing st) (tokens_of v @ ts)
       = (case push_value v st of None \<Rightarrow> None | Some s' \<Rightarrow> parse_tokens s' ts)"
  "wf_elems xs \<Longrightarrow> xs \<noteq> [] \<Longrightarrow>
     parse_tokens (Parsing (arr_frame acc # st)) (elems_tokens xs @ ts)
       = parse_tokens (Parsing (FArrValue (acc @ xs) # st)) ts"
  "wf_members ms \<Longrightarrow> ms \<noteq> [] \<Longrightarrow> distinct (map fst (macc @ ms)) \<Longrightarrow>
     parse_tokens (Parsing (obj_frame macc # st)) (members_tokens ms @ ts)
       = parse_tokens (Parsing (FObjValue (macc @ ms) # st)) ts"
proof (induction v and xs and ms arbitrary: st ts and st ts acc and st ts macc
       rule: wf_json_wf_elems_wf_members.induct)
  case 1
  then show ?case by simp
next
  case (2 b)
  then show ?case by simp
next
  case (3 n)
  then show ?case by simp
next
  case (4 s)
  then show ?case
    by (cases st rule: expects_value.cases) simp_all
next
  case (5 xs)
  show ?case
  proof (cases "xs = []")
    case True
    then show ?thesis
      using "5.prems" by (simp add: open_container_expected)
  next
    case False
    have "parse_tokens (Parsing (arr_frame [] # st)) (elems_tokens xs @ TRBrack # ts)
            = parse_tokens (Parsing (FArrValue ([] @ xs) # st)) (TRBrack # ts)"
      using "5.IH" [of "[]" st "TRBrack # ts"] "5.prems" False by simp
    then show ?thesis
      using "5.prems" by (simp add: open_container_expected arr_frame_def)
  qed
next
  case (6 ms)
  show ?case
  proof (cases "ms = []")
    case True
    then show ?thesis
      using "6.prems" by (simp add: open_container_expected)
  next
    case False
    have "parse_tokens (Parsing (obj_frame [] # st)) (members_tokens ms @ TRBrace # ts)
            = parse_tokens (Parsing (FObjValue ([] @ ms) # st)) (TRBrace # ts)"
      using "6.IH" [of "[]" st "TRBrace # ts"] "6.prems" False by simp
    then show ?thesis
      using "6.prems" by (simp add: open_container_expected obj_frame_def)
  qed
next
  case 7
  then show ?case by simp
next
  case (8 x xs)
  have x: "parse_tokens (Parsing (arr_frame acc # st)) (tokens_of x @ us)
             = parse_tokens (Parsing (FArrValue (acc @ [x]) # st)) us" for us
    using "8.IH"(1) [of "arr_frame acc # st" us] "8.prems" by (simp add: push_arr_frame)
  show ?case
  proof (cases "xs = []")
    case True
    then show ?thesis
      using x [of ts] by simp
  next
    case False
    have "parse_tokens (Parsing (arr_frame (acc @ [x]) # st)) (elems_tokens xs @ ts)
            = parse_tokens (Parsing (FArrValue ((acc @ [x]) @ xs) # st)) ts"
      using "8.IH"(2) [of "acc @ [x]" st ts] "8.prems" False by simp
    then show ?thesis
      using False x [of "TComma # elems_tokens xs @ ts"] by (simp add: arr_frame_def)
  qed
next
  case 9
  then show ?case by simp
next
  case (10 k v ms)
  from "10.prems" have fresh: "k \<notin> fst ` set macc"
    by auto
  have v: "parse_tokens (Parsing (obj_frame macc # st)) (TString k # TColon # tokens_of v @ us)
             = parse_tokens (Parsing (FObjValue (macc @ [(k, v)]) # st)) us" for us
  proof -
    have "parse_tokens (Parsing (obj_frame macc # st)) (TString k # TColon # tokens_of v @ us)
            = parse_tokens (Parsing (FObjColon macc k # st)) (tokens_of v @ us)"
      by (simp add: obj_frame_def)
    also have "\<dots> = parse_tokens (Parsing (FObjValue (AList.update k v macc) # st)) us"
      using "10.IH"(1) [of "FObjColon macc k # st" us] "10.prems" by simp
    finally show ?thesis
      using fresh by (simp add: update_fresh)
  qed
  show ?case
  proof (cases "ms = []")
    case True
    then show ?thesis
      using v [of ts] by simp
  next
    case False
    have "parse_tokens (Parsing (obj_frame (macc @ [(k, v)]) # st)) (members_tokens ms @ ts)
            = parse_tokens (Parsing (FObjValue ((macc @ [(k, v)]) @ ms) # st)) ts"
      using "10.IH"(2) [of "macc @ [(k, v)]" st ts] "10.prems" False by simp
    then show ?thesis
      using False v [of "TComma # members_tokens ms @ ts"] by (simp add: obj_frame_def)
  qed
qed

lemma parse_tokens_of: "wf_json v \<Longrightarrow> parse_tokens (Parsing []) (tokens_of v) = Some (Done v)"
  using parse_serialized(1) [of v "[]" "[]"] by simp

text \<open>The text the handler splices together.\<close>

lemma ws_replicate: "list_all is_json_ws (replicate n (CHR '' ''))"
  by (induction n) (simp_all add: is_json_ws_def)

lemma lex_stringify:
  "wf_json v \<Longrightarrow> delim rest \<Longrightarrow>
     lex (JSON_stringify sp v @ rest) = prepend_tokens (tokens_of v) (lex rest)"
  by (simp add: JSON_stringify_def lex_serialized(1) ws_replicate)

lemma JSON_parse_tokens:
  "wf_json v \<Longrightarrow> lex txt = Some (tokens_of v) \<Longrightarrow> JSON_parse txt = Some v"
  by (simp add: JSON_parse_def parse_tokens_of)

lemma JSON_parse_stringify: "wf_json v \<Longrightarrow> JSON_parse (JSON_stringify sp v) = Some v"
  using lex_stringify [of v "[]" sp] by (intro JSON_parse_tokens) simp_all

lemma map_stringify:
  "map (JSON_stringify sp) ns = SerializeJSONArray (replicate (min sp 10) (CHR '' '')) [] ns"
  by (induction ns) (simp_all add: JSON_stringify_def)

lemma lex_nodesJson:
  assumes "wf_elems ns"
  shows "lex (nodesJson ns @ rest) = prepend_tokens (tokens_of (JArr ns)) (lex rest)"
proof (cases "ns = []")
  case True
  then show ?thesis
    by (simp add: nodesJson_def lex_punct cons_token_prepend)
next
  case False
  have "lex (join '','' (SerializeJSONArray (replicate 2 (CHR '' '')) [] ns) @ CHR '']'' # rest)
          = prepend_tokens (elems_tokens ns) (lex (CHR '']'' # rest))"
    using assms False by (intro lex_serialized(2)) (simp_all add: ws_replicate)
  then show ?thesis
    by (simp add: nodesJson_def map_stringify lex_punct cons_token_prepend)
qed

lemma quoted_keys:
  "[CHR 0x22] @ ''metadata'' @ [CHR 0x22] = QuoteJSONString ''metadata''"
  "[CHR 0x22] @ ''nodes'' @ [CHR 0x22] = QuoteJSONString ''nodes''"
  "[CHR 0x22] @ ''globalVars'' @ [CHR 0x22] = QuoteJSONString ''globalVars''"
  by (simp_all add: QuoteJSONString_def quote_char_def)

lemma resultJson_parts:
  \<open>resultJson md ns (Some g)
     = ''{ '' @ QuoteJSONString ''metadata'' @ '': '' @ JSON_stringify 2 (JObj md)
       @ '', '' @ QuoteJSONString ''nodes'' @ '': '' @ nodesJson ns
       @ '', '' @ QuoteJSONString ''globalVars'' @ '': '' @ JSON_stringify 2 g @ '' }''\<close>
  by (simp add: resultJson_def globalVarsJson_def quoted_keys [symmetric])

lemma lex_space: "lex (CHR '' '' # rest) = lex rest"
  by (simp add: lex.simps(2) is_json_ws_def)

lemma lex_resultJson:
  assumes "wf_json (JObj md)" "wf_elems ns" "wf_json g"
  shows "lex (resultJson md ns (Some g))
           = Some (tokens_of (JObj [(''metadata'', JObj md), (''nodes'', JArr ns), (''globalVars'', g)]))"
proof -
  have g: "lex (JSON_stringify 2 g @ '' }'') = Some (tokens_of g @ [TRBrace])"
    using assms(3) by (simp add: lex_stringify lex_space lex_punct cons_token_prepend)
  have n: "lex (nodesJson ns @ '', '' @ QuoteJSONString ''globalVars'' @ '': '' @ JSON_stringify 2 g @ '' }'')
             = Some (tokens_of (JArr ns) @ [TComma, TString ''globalVars'', TColon] @ tokens_of g @ [TRBrace])"
    using assms(2) g
    by (simp add: lex_nodesJson lex_space lex_punct lex_string cons_token_prepend del: tokens_of.simps)
  have m: "lex (JSON_stringify 2 (JObj md) @ '', '' @ QuoteJSONString ''nodes'' @ '': '' @ nodesJson ns
                 @ '', '' @ QuoteJSONString ''globalVars'' @ '': '' @ JSON_stringify 2 g @ '' }'')
             = Some (tokens_of (JObj md) @ [TComma, TString ''nodes'', TColon] @ tokens_of (JArr ns)
                     @ [TComma, TString ''globalVars'', TColon] @ tokens_of g @ [TRBrace])"
    using assms(1) n
    by (simp add: lex_stringify lex_space lex_punct lex_string cons_token_prepend del: tokens_of.simps)
  show ?thesis
    using m
    by (simp add: resultJson_parts lex_space lex_punct lex_string cons_token_prepend del: tokens_of.simps)
       simp
qed

lemma wf_members_lookup: "wf_members ms \<Longrightarrow> map_of ms k = Some v \<Longrightarrow> wf_json v"
  by (induction ms) (auto split: if_splits)

lemma wf_members_filter: "wf_members ms \<Longrightarrow> wf_members (filter P ms)"
  by (induction ms) auto

lemma wf_metadata: "wf_json (JObj file) \<Longrightarrow> wf_json (JObj (metadata_of file))"
  by (simp add: metadata_of_def wf_members_filter distinct_map_filter)

lemma map_of_metadata:
  "map_of (metadata_of obj) k
     = (if k = ''nodes'' \<or> k = ''globalVars'' then None else map_of obj k)"
  by (induction obj) (auto simp: metadata_of_def)


text \<open>The text for a small design, written out.\<close>

lemma resultJson_example:
  \<open>resultJson [(''name'', JStr ''Demo'')]
     [JNull, JObj [(''a'', JArr [JNum ''1'', JNum ''2''])]] (Some (JObj []))
   = ''{ "metadata": {'' @ [CHR 0x0A] @
     ''  "name": "Demo"'' @ [CHR 0x0A] @
     ''}, "nodes": [null,{'' @ [CHR 0x0A] @
     ''  "a": ['' @ [CHR 0x0A] @
     ''    1,'' @ [CHR 0x0A] @
     ''    2'' @ [CHR 0x0A] @
     ''  ]'' @ [CHR 0x0A] @
     ''}], "globalVars": {} }''\<close>
  by (simp add: resultJson_def nodesJson_def globalVarsJson_def JSON_stringify_def
      wrap_parts_def QuoteJSONString_def quote_char_def eval_nat_numeral)

text \<open>
  C6. When the fetch succeeds with a design whose \<open>nodes\<close> is an array and whose
  \<open>globalVars\<close> is there (its numbers written as JSON numbers, no object with a key
  twice), the handler returns one text block; the spliced string parses to the object
  \<open>{metadata, nodes, globalVars}\<close>, which is also what the direct serialization of
  that object parses to, with any indentation; and \<open>metadata\<close> has exactly the
  top-level properties of the design other than \<open>nodes\<close> and \<open>globalVars\<close>.
\<close>

theorem get_figma_data_text_parses_to_document:
  assumes fetch: "(if truthy_str nid then getNode fileKey (the nid) depth
                   else getFile fileKey depth) = Inr file"
    and wf: "wf_json (JObj file)"
    and nodes: "map_of file ''nodes'' = Some (JArr ns)"
    and gv: "map_of file ''globalVars'' = Some g"
  shows "get_figma_data getNode getFile fileKey nid depth
           = Inr \<lparr>isError = None,
                  content = [\<lparr>block_type = ''text'',
                              block_text = resultJson (metadata_of file) ns (Some g)\<rparr>]\<rparr>
         \<and> JSON_parse (resultJson (metadata_of file) ns (Some g))
           = Some (JObj [(''metadata'', JObj (metadata_of file)), (''nodes'', JArr ns),
                         (''globalVars'', g)])
         \<and> JSON_parse (JSON_stringify sp
              (JObj [(''metadata'', JObj (metadata_of file)), (''nodes'', JArr ns),
                     (''globalVars'', g)]))
           = Some (JObj [(''metadata'', JObj (metadata_of file)), (''nodes'', JArr ns),
                         (''globalVars'', g)])
         \<and> (\<forall>k. map_of (metadata_of file) k
                 = (if k = ''nodes'' \<or> k = ''globalVars'' then None else map_of file k))"
proof -
  let ?V = "JObj [(''metadata'', JObj (metadata_of file)), (''nodes'', JArr ns), (''globalVars'', g)]"
  have md: "wf_json (JObj (metadata_of file))"
    using wf by (rule wf_metadata)
  have ns: "wf_elems ns"
    using wf_members_lookup [OF _ nodes] wf by simp
  have g: "wf_json g"
    using wf_members_lookup [OF _ gv] wf by simp
  have V: "wf_json ?V"
    using md ns g by simp
  have "get_figma_data getNode getFile fileKey nid depth
           = Inr \<lparr>isError = None,
                  content = [\<lparr>block_type = ''text'',
                              block_text = resultJson (metadata_of file) ns (Some g)\<rparr>]\<rparr>"
    using fetch nodes gv by (simp add: get_figma_data_def get_figma_data_try_def try_catch_def)
  moreover have "JSON_parse (resultJson (metadata_of file) ns (Some g)) = Some ?V"
    using V lex_resultJson [OF md ns g] by (rule JSON_parse_tokens)
  moreover have "JSON_parse (JSON_stringify sp ?V) = Some ?V"
    using V by (rule JSON_parse_stringify)
  ultimately show ?thesis
    using map_of_metadata by blast
qed

theorem get_figma_data_text_parses_to_document_witness:
  "get_figma_data (\<lambda>fileKey nodeId (depth :: nat option). Inl (new_Error ''unused''))
     (\<lambda>fileKey depth.
        Inr [(''name'', JStr ''Demo''),
             (''nodes'', JArr [JObj [(''id'', JStr ''1:2''), (''opacity'', JNum ''0.5'')], JNull]),
             (''globalVars'', JObj [(''styles'', JObj [])])])
     ''abc123'' None None
   = Inr \<lparr>isError = None,
          content = [\<lparr>block_type = ''text'',
                      block_text =
                        resultJson [(''name'', JStr ''Demo'')]
                          [JObj [(''id'', JStr ''1:2''), (''opacity'', JNum ''0.5'')], JNull]
                          (Some (JObj [(''styles'', JObj [])]))\<rparr>]\<rparr>
   \<and> JSON_parse (resultJson [(''name'', JStr ''Demo'')]
                    [JObj [(''id'', JStr ''1:2''), (''opacity'', JNum ''0.5'')], JNull]
                    (Some (JObj [(''styles'', JObj [])])))
     = Some (JObj [(''metadata'', JObj [(''name'', JStr ''Demo'')]),
                   (''nodes'', JArr [JObj [(''id'', JStr ''1:2''), (''opacity'', JNum ''0.5'')], JNull]),
                   (''globalVars'', JObj [(''styles'', JObj [])])])
   \<and> JSON_parse (JSON_stringify 2
        (JObj [(''metadata'', JObj [(''name'', JStr ''Demo'')]),
               (''nodes'', JArr [JObj [(''id'', JStr ''1:2''), (''opacity'', JNum ''0.5'')], JNull]),
               (''globalVars'', JObj [(''styles'', JObj [])])]))
     = Some (JObj [(''metadata'', JObj [(''name'', JStr ''Demo'')]),
                   (''nodes'', JArr [JObj [(''id'', JStr ''1:2''), (''opacity'', JNum ''0.5'')], JNull]),
                   (''globalVars'', JObj [(''styles'', JObj [])])])"
proof -
  have n: "num_literal ''0.5''"
    by (simp add: num_literal_def is_json_number_def exp_ok_def char_class_defs)
  show ?thesis
    using get_figma_data_text_parses_to_document
            [of None "\<lambda>fileKey nodeId (depth :: nat option). Inl (new_Error ''unused'')"
                "''abc123''" None
                "\<lambda>fileKey depth.
                   Inr [(''name'', JStr ''Demo''),
                        (''nodes'', JArr [JObj [(''id'', JStr ''1:2''), (''opacity'', JNum ''0.5'')], JNull]),
                        (''globalVars'', JObj [(''styles'', JObj [])])]"
                "[(''name'', JStr ''Demo''),
                  (''nodes'', JArr [JObj [(''id'', JStr ''1:2''), (''opacity'', JNum ''0.5'')], JNull]),
                  (''globalVars'', JObj [(''styles'', JObj [])])]"
                "[JObj [(''id'', JStr ''1:2''), (''opacity'', JNum ''0.5'')], JNull]"
                "JObj [(''styles'', JObj [])]" 2]
          n
    by (simp add: metadata_of_def)
qed

end
